theory Spec2Isabelle
  imports Main
begin

section \<open>The intermediate representation, as EnzymeLogic.cpp queries it\<close>

text \<open>
  The transform reads an SSA function through pointers: a \<open>Value*\<close> is a name, a
  \<open>BasicBlock*\<close> is a name, and what the code learns with \<open>isa\<close>, \<open>dyn_cast\<close> and the
  accessors is a field of the function looked up at that name. Only the type tests the
  code makes are kept of a type.
\<close>

type_synonym vname = nat
type_synonym bname = nat

datatype ty = FPTy | IntTy | PtrTy | VoidTy | OtherTy

datatype binop = Add | FAdd | Sub | FSub | Mul | FMul | UDiv | SDiv | FDiv
  | URem | SRem | FRem | Shl | LShr | AShr | And | Or | Xor

datatype castop = Trunc | ZExt | SExt | FPToUI | FPToSI | UIToFP | SIToFP
  | FPTrunc | FPExt | PtrToInt | IntToPtr | BitCast | AddrSpaceCast

text \<open>A callee (\<open>llvm::Function\<close>), with the attributes the code asks for.\<close>

record llvm_function =
  fn_name :: string
  fn_empty :: bool
  fn_readnone :: bool
  fn_param_readonly :: "nat \<Rightarrow> bool"
  fn_param_readnone :: "nat \<Rightarrow> bool"
  fn_intrinsic :: bool

text \<open>
  The called value of a call: a function, a constant cast expression of a function, or
  anything else (an indirect call through the value named).
\<close>

datatype callee = DirectCallee llvm_function | CastCallee llvm_function | IndirectCallee vname

datatype inst =
    Ret "vname option"
  | Br "vname option" "bname list"
  | Switch vname "bname list"
  | Unreachable
  | OtherTerminator "vname list" "bname list"
  | BinaryOperator binop vname vname
  | Alloca
  | Load vname
  | Store vname vname
  | GetElementPtr vname "vname list"
  | CastInst castop vname
  | CmpInst vname vname
  | PHINode "vname list"
  | CallInst callee "vname list"
  | SelectInst vname vname vname
  | ExtractElement vname vname
  | InsertElement vname vname vname
  | ShuffleVector vname vname
  | ExtractValue vname
  | InsertValue vname vname
  | OtherInst "vname list"

datatype vkind =
    Argument | ConstantPointerNull | ConstantInt int | GlobalVariable
  | Instruction inst | OtherValue

record ir_function =
  blocks :: "bname list"
  body :: "bname \<Rightarrow> vname list"
  terminator :: "bname \<Rightarrow> vname"
  parent :: "vname \<Rightarrow> bname"
  kind :: "vname \<Rightarrow> vkind"
  type_of :: "vname \<Rightarrow> ty"

text \<open>\<open>inst_begin .. inst_end\<close>: every instruction, block after block.\<close>

definition instructions :: "ir_function \<Rightarrow> vname list" where
  "instructions F = concat (map (\<lambda>b. body F b @ [terminator F b]) (blocks F))"

definition isa_ReturnInst :: "ir_function \<Rightarrow> vname \<Rightarrow> bool" where
  "isa_ReturnInst F v = (case kind F v of Instruction (Ret r) \<Rightarrow> True | _ \<Rightarrow> False)"

definition isa_UnreachableInst :: "ir_function \<Rightarrow> vname \<Rightarrow> bool" where
  "isa_UnreachableInst F v = (case kind F v of Instruction Unreachable \<Rightarrow> True | _ \<Rightarrow> False)"

fun successors_of :: "vkind \<Rightarrow> bname list" where
  "successors_of (Instruction (Br c bs)) = bs"
| "successors_of (Instruction (Switch c bs)) = bs"
| "successors_of (Instruction (OtherTerminator os bs)) = bs"
| "successors_of _ = []"

definition successors :: "ir_function \<Rightarrow> bname \<Rightarrow> bname list" where
  "successors F b = successors_of (kind F (terminator F b))"

definition predecessors :: "ir_function \<Rightarrow> bname \<Rightarrow> bname list" where
  "predecessors F b = filter (\<lambda>p. b \<in> set (successors F p)) (blocks F)"

text \<open>\<open>CallInst::getCalledFunction\<close>: the callee when it is a function, null otherwise.\<close>

fun getCalledFunction :: "callee \<Rightarrow> llvm_function option" where
  "getCalledFunction (DirectCallee f) = Some f"
| "getCalledFunction _ = None"

text \<open>What the transform's own state answers about a value (\<open>GradientUtils\<close>).\<close>

record gradient_utils =
  isConstantValue :: "vname \<Rightarrow> bool"
  isConstantInstruction :: "vname \<Rightarrow> bool"

text \<open>How a run of the transform can stop: a failed \<open>assert\<close>, \<open>report_fatal_error\<close>,
  a member access through a null pointer, or a loop that does not end.\<close>

datatype failure = AssertionFailed | FatalError string | NullDereference | Diverges

subsection \<open>The type analysis\<close>

text \<open>
  The type analysis (\<open>TypeResults\<close>) and the data layout, neither part of this file.
  \<open>intType\<close> is \<open>TR.intType (gutils->getOriginal v, false)\<close>; its answer is a float of some
  type, a pointer, an integer, anything or unknown. A \<open>ConstantInt\<close> carries its
  sign-extended value.
\<close>

datatype fp_type = HalfTy | FloatTy | DoubleTy | X86_FP80Ty | FP128Ty

datatype data_type = DT_Integer | DT_Float fp_type | DT_Pointer | DT_Anything | DT_Unknown

fun isFloat :: "data_type \<Rightarrow> fp_type option" where
  "isFloat (DT_Float t) = Some t"
| "isFloat _ = None"

record type_results =
  intType :: "vname \<Rightarrow> data_type"
  isPossiblePointer :: "vname \<Rightarrow> bool"
  firstPointer :: "nat \<Rightarrow> vname \<Rightarrow> failure + data_type"
  typeAllocSizeInBits :: "fp_type \<Rightarrow> nat"

subsection \<open>Values for the examples\<close>

text \<open>An ordinary defined function \<open>g\<close> with no attributes.\<close>

definition callee_example :: llvm_function where
  "callee_example = \<lparr> fn_name = ''g'', fn_empty = False, fn_readnone = False,
     fn_param_readonly = (\<lambda>i. False), fn_param_readnone = (\<lambda>i. False), fn_intrinsic = False \<rparr>"

text \<open>An activity analysis that finds every value and instruction active.\<close>

definition all_active :: gradient_utils where
  "all_active = \<lparr> isConstantValue = (\<lambda>v. False), isConstantInstruction = (\<lambda>v. False) \<rparr>"

subsection \<open>Maps\<close>

text \<open>
  A \<open>std::map<K,V>\<close> is a partial map; an iterator is the entry it points to.
  \<open>std::map::emplace\<close> inserts only when the key is absent and otherwise hands back the
  entry that is already there.
\<close>

definition emplace :: "('k \<rightharpoonup> 'v) \<Rightarrow> 'k \<Rightarrow> 'v \<Rightarrow> ('k \<rightharpoonup> 'v) \<times> ('k \<times> 'v) \<times> bool" where
  "emplace m k v =
     (case m k of
        None \<Rightarrow> (m(k \<mapsto> v), (k, v), True)
      | Some w \<Rightarrow> (m, (k, w), False))"

section \<open>The cacheability analyzer: loads (\<open>compute_uncacheable_load_map\<close>, lines 68-168)\<close>

text \<open>
  The analyses the code consults and that are not part of this file: LLVM's
  \<open>GetUnderlyingObject\<close> (with the data layout and depth 100 fixed), the dominator tree
  \<open>OrigDT\<close>, the alias analysis (\<open>isModSet (AA.getModRefInfo (J, MemoryLocation::get L))\<close>
  and, for an argument of a call site, \<open>MemoryLocation::getForArgument\<close>), the target library
  information, and \<open>isCertainMallocOrFree\<close> of LibraryFuncs.h, which takes a possibly
  null function.
\<close>

record analyses =
  GetUnderlyingObject :: "vname \<Rightarrow> vname"
  dominates :: "vname \<Rightarrow> vname \<Rightarrow> bool"
  isModSet_load :: "vname \<Rightarrow> vname \<Rightarrow> bool"
  isModSet_arg :: "vname \<Rightarrow> vname \<Rightarrow> nat \<Rightarrow> bool"
  isAllocationFunction :: "llvm_function \<Rightarrow> bool"
  isDeallocationFunction :: "llvm_function \<Rightarrow> bool"
  isCertainMallocOrFree :: "llvm_function option \<Rightarrow> bool"

text \<open>
  The lines the source repeats at every call it inspects: \<open>called\<close> is the called
  function, or the function under a constant cast when that function is an allocation or
  deallocation function.
\<close>

definition resolve_called :: "analyses \<Rightarrow> callee \<Rightarrow> llvm_function option" where
  "resolve_called A cv =
     (case cv of
        CastCallee fn \<Rightarrow>
          (if isAllocationFunction A fn \<or> isDeallocationFunction A fn then Some fn
           else getCalledFunction cv)
      | _ \<Rightarrow> getCalledFunction cv)"

text \<open>\<open>called && isCertainMallocOrFree(called)\<close> for the instruction named, false when it
  is not a call.\<close>

definition certain_malloc_or_free_call :: "ir_function \<Rightarrow> analyses \<Rightarrow> vname \<Rightarrow> bool" where
  "certain_malloc_or_free_call F A v =
     (case kind F v of
        Instruction (CallInst cv args) \<Rightarrow>
          (let called = resolve_called A cv
           in called \<noteq> None \<and> isCertainMallocOrFree A called)
      | _ \<Rightarrow> False)"

text \<open>Lines 76-132: the value of \<open>can_modref\<close> before the second loop, or the failed
  assertion when the underlying object is an argument the map does not know.\<close>

definition underlying_can_modref ::
  "ir_function \<Rightarrow> analyses \<Rightarrow> (vname \<rightharpoonup> bool) \<Rightarrow> vname \<Rightarrow> failure + bool" where
  "underlying_can_modref F A uncacheable_args obj =
     (case kind F obj of
        Argument \<Rightarrow>
          (case uncacheable_args obj of
             None \<Rightarrow> Inl AssertionFailed
           | Some found \<Rightarrow> Inr (if found then True else False))
      | Instruction (CallInst cv args) \<Rightarrow>
          (if certain_malloc_or_free_call F A obj then Inr False else Inr True)
      | Instruction (Load p) \<Rightarrow> Inr True
      | _ \<Rightarrow> Inr True)"

text \<open>Lines 134-163: the scan of every other instruction, with its \<open>continue\<close> and \<open>break\<close>.\<close>

fun modref_scan :: "ir_function \<Rightarrow> analyses \<Rightarrow> vname \<Rightarrow> vname list \<Rightarrow> bool \<Rightarrow> bool" where
  "modref_scan F A inst [] can_modref = can_modref"
| "modref_scan F A inst (inst2 # rest) can_modref =
     (if inst = inst2 then modref_scan F A inst rest can_modref
      else if \<not> dominates A inst2 inst then
        (if certain_malloc_or_free_call F A inst2 then modref_scan F A inst rest can_modref
         else if isModSet_load A inst2 inst then True
         else modref_scan F A inst rest can_modref)
      else modref_scan F A inst rest can_modref)"

fun load_map_loop ::
  "ir_function \<Rightarrow> analyses \<Rightarrow> (vname \<rightharpoonup> bool) \<Rightarrow> vname list \<Rightarrow> (vname \<rightharpoonup> bool)
   \<Rightarrow> failure + (vname \<rightharpoonup> bool)" where
  "load_map_loop F A uncacheable_args [] can_modref_map = Inr can_modref_map"
| "load_map_loop F A uncacheable_args (inst # rest) can_modref_map =
     (case kind F inst of
        Instruction (Load ptr) \<Rightarrow>
          (case underlying_can_modref F A uncacheable_args (GetUnderlyingObject A ptr) of
             Inl e \<Rightarrow> Inl e
           | Inr can_modref \<Rightarrow>
               load_map_loop F A uncacheable_args rest
                 (can_modref_map(inst \<mapsto> modref_scan F A inst (instructions F) can_modref)))
      | _ \<Rightarrow> load_map_loop F A uncacheable_args rest can_modref_map)"

definition compute_uncacheable_load_map ::
  "ir_function \<Rightarrow> analyses \<Rightarrow> (vname \<rightharpoonup> bool) \<Rightarrow> failure + (vname \<rightharpoonup> bool)" where
  "compute_uncacheable_load_map F A uncacheable_args =
     load_map_loop F A uncacheable_args (instructions F) Map.empty"

text \<open>The two conditions of the specification, in its words.\<close>

definition uncacheable_by_default ::
  "ir_function \<Rightarrow> analyses \<Rightarrow> (vname \<rightharpoonup> bool) \<Rightarrow> vname \<Rightarrow> bool" where
  "uncacheable_by_default F A uncacheable_args obj =
     (case kind F obj of
        Argument \<Rightarrow> uncacheable_args obj = Some True
      | Instruction (CallInst cv args) \<Rightarrow> \<not> certain_malloc_or_free_call F A obj
      | Instruction (Load p) \<Rightarrow> True
      | _ \<Rightarrow> True)"

definition written_later :: "ir_function \<Rightarrow> analyses \<Rightarrow> vname \<Rightarrow> bool" where
  "written_later F A L =
     (\<exists>J \<in> set (instructions F). J \<noteq> L \<and> \<not> dominates A J L
         \<and> \<not> certain_malloc_or_free_call F A J \<and> isModSet_load A J L)"

lemma modref_scan_eq:
  "modref_scan F A inst js c =
     (c \<or> (\<exists>J \<in> set js. J \<noteq> inst \<and> \<not> dominates A J inst
              \<and> \<not> certain_malloc_or_free_call F A J \<and> isModSet_load A J inst))"
  by (induction js arbitrary: c) auto

lemma underlying_can_modref_eq:
  "underlying_can_modref F A ua obj = Inr c \<Longrightarrow> c = uncacheable_by_default F A ua obj"
  by (auto simp: underlying_can_modref_def uncacheable_by_default_def
           split: vkind.splits inst.splits option.splits if_splits)

lemma load_map_loop_entries:
  "load_map_loop F A ua xs m0 = Inr m \<Longrightarrow>
   m L = (case kind F L of
            Instruction (Load p) \<Rightarrow>
              (if L \<in> set xs
               then Some (uncacheable_by_default F A ua (GetUnderlyingObject A p) \<or> written_later F A L)
               else m0 L)
          | _ \<Rightarrow> m0 L)"
proof (induction xs arbitrary: m0)
  case Nil
  then show ?case by (auto split: vkind.splits inst.splits)
next
  case (Cons x xs)
  show ?case
  proof (cases "\<exists>ptr. kind F x = Instruction (Load ptr)")
    case True
    then obtain ptr where kx: "kind F x = Instruction (Load ptr)" by blast
    with Cons.prems obtain c where
      c: "underlying_can_modref F A ua (GetUnderlyingObject A ptr) = Inr c"
      and rest: "load_map_loop F A ua xs (m0(x \<mapsto> modref_scan F A x (instructions F) c)) = Inr m"
      by (auto split: sum.splits)
    have cv: "c = uncacheable_by_default F A ua (GetUnderlyingObject A ptr)"
      using c by (rule underlying_can_modref_eq)
    show ?thesis
      using Cons.IH[OF rest] kx cv
      by (auto simp: modref_scan_eq written_later_def split: vkind.splits inst.splits)
  next
    case False
    with Cons.prems have rest: "load_map_loop F A ua xs m0 = Inr m"
      by (auto split: vkind.splits inst.splits)
    show ?thesis
      using Cons.IH[OF rest] False
      by (auto split: vkind.splits inst.splits)
  qed
qed

lemma load_map_loop_succeeds:
  "\<forall>L \<in> set xs. \<forall>p. kind F L = Instruction (Load p)
        \<longrightarrow> kind F (GetUnderlyingObject A p) = Argument \<longrightarrow> ua (GetUnderlyingObject A p) \<noteq> None
   \<Longrightarrow> \<exists>m. load_map_loop F A ua xs m0 = Inr m"
proof (induction xs arbitrary: m0)
  case Nil
  then show ?case by simp
next
  case (Cons x xs)
  show ?case
  proof (cases "\<exists>ptr. kind F x = Instruction (Load ptr)")
    case True
    then obtain ptr where kx: "kind F x = Instruction (Load ptr)" by blast
    have "\<exists>c. underlying_can_modref F A ua (GetUnderlyingObject A ptr) = Inr c"
      using Cons.prems kx
      by (auto simp: underlying_can_modref_def split: vkind.splits inst.splits option.splits)
    then obtain c where c: "underlying_can_modref F A ua (GetUnderlyingObject A ptr) = Inr c" ..
    have "\<exists>m. load_map_loop F A ua xs (m0(x \<mapsto> modref_scan F A x (instructions F) c)) = Inr m"
      by (rule Cons.IH) (use Cons.prems in auto)
    then show ?thesis using kx c by simp
  next
    case False
    have "\<exists>m. load_map_loop F A ua xs m0 = Inr m"
      by (rule Cons.IH) (use Cons.prems in auto)
    then show ?thesis using False
      by (auto split: vkind.splits inst.splits)
  qed
qed

text \<open>
  C2. When \<open>compute_uncacheable_load_map\<close> returns a map, the entry of every load \<open>L\<close> of
  the function is true if and only if the underlying object of its pointer operand is
  uncacheable by default (an argument the caller marked uncacheable, a call that is not a
  known allocation or free, another load, anything else), or some instruction other than
  \<open>L\<close> that does not dominate \<open>L\<close>, and is not a known allocation or free call, is reported
  to write the location \<open>L\<close> reads. It does return a map whenever every argument that is the
  underlying object of a load has an entry in the caller's map (the only way it stops is
  the assertion on that lookup).
\<close>

theorem compute_uncacheable_load_map_iff:
  "(compute_uncacheable_load_map F A uncacheable_args = Inr can_modref_map
      \<longrightarrow> (\<forall>L \<in> set (instructions F). \<forall>p. kind F L = Instruction (Load p) \<longrightarrow>
             can_modref_map L =
               Some (uncacheable_by_default F A uncacheable_args (GetUnderlyingObject A p)
                     \<or> written_later F A L)))
   \<and> ((\<forall>L \<in> set (instructions F). \<forall>p. kind F L = Instruction (Load p)
          \<longrightarrow> kind F (GetUnderlyingObject A p) = Argument
          \<longrightarrow> uncacheable_args (GetUnderlyingObject A p) \<noteq> None)
      \<longrightarrow> (\<exists>m. compute_uncacheable_load_map F A uncacheable_args = Inr m))"
proof (intro conjI impI ballI allI)
  fix L p
  assume r: "compute_uncacheable_load_map F A uncacheable_args = Inr can_modref_map"
    and L: "L \<in> set (instructions F)" and k: "kind F L = Instruction (Load p)"
  from load_map_loop_entries[OF r[unfolded compute_uncacheable_load_map_def], of L] L k
  show "can_modref_map L =
          Some (uncacheable_by_default F A uncacheable_args (GetUnderlyingObject A p)
                \<or> written_later F A L)"
    by simp
next
  assume "\<forall>L \<in> set (instructions F). \<forall>p. kind F L = Instruction (Load p)
          \<longrightarrow> kind F (GetUnderlyingObject A p) = Argument
          \<longrightarrow> uncacheable_args (GetUnderlyingObject A p) \<noteq> None"
  then show "\<exists>m. compute_uncacheable_load_map F A uncacheable_args = Inr m"
    unfolding compute_uncacheable_load_map_def by (rule load_map_loop_succeeds)
qed

text \<open>
  Three loads of three pointer arguments and a store: argument 1 is cacheable but the
  store 23 (after the load, so not dominating it) may write what load 20 reads; argument 2
  is uncacheable; argument 3 is cacheable and nothing writes it.
\<close>

definition loads_example :: ir_function where
  "loads_example = \<lparr> blocks = [0],
     body = (\<lambda>b. if b = 0 then [20, 21, 22, 23] else []),
     terminator = (\<lambda>b. 30),
     parent = (\<lambda>v. 0),
     kind = (\<lambda>v. if v = 1 \<or> v = 2 \<or> v = 3 \<or> v = 4 then Argument
                  else if v = 20 then Instruction (Load 1)
                  else if v = 21 then Instruction (Load 2)
                  else if v = 22 then Instruction (Load 3)
                  else if v = 23 then Instruction (Store 4 1)
                  else if v = 30 then Instruction (Ret None)
                  else OtherValue),
     type_of = (\<lambda>v. if v = 1 \<or> v = 2 \<or> v = 3 then PtrTy
                     else if v = 23 \<or> v = 30 then VoidTy else FPTy) \<rparr>"

definition analyses_example :: analyses where
  "analyses_example = \<lparr> GetUnderlyingObject = (\<lambda>v. v),
     dominates = (\<lambda>a b. a < b),
     isModSet_load = (\<lambda>J L. J = 23 \<and> L = 20),
     isModSet_arg = (\<lambda>J c i. False),
     isAllocationFunction = (\<lambda>f. fn_name f = ''malloc''),
     isDeallocationFunction = (\<lambda>f. fn_name f = ''free''),
     isCertainMallocOrFree = (\<lambda>f. case f of None \<Rightarrow> False
        | Some g \<Rightarrow> fn_name g = ''malloc'' \<or> fn_name g = ''free'') \<rparr>"

definition caller_marks_example :: "vname \<rightharpoonup> bool" where
  "caller_marks_example = [1 \<mapsto> False, 2 \<mapsto> True, 3 \<mapsto> False, 4 \<mapsto> False]"

lemma loads_example_instructions: "instructions loads_example = [20, 21, 22, 23, 30]"
  by (simp add: instructions_def loads_example_def)


lemma loads_example_known: "\<forall>L \<in> set (instructions loads_example). \<forall>p. kind loads_example L = Instruction (Load p)
          \<longrightarrow> kind loads_example (GetUnderlyingObject analyses_example p) = Argument
          \<longrightarrow> caller_marks_example (GetUnderlyingObject analyses_example p) \<noteq> None"
    apply (simp add: loads_example_instructions)
    apply (simp add: loads_example_def analyses_example_def caller_marks_example_def)
    apply blast
    done

lemma loads_example_default: "\<not> uncacheable_by_default loads_example analyses_example caller_marks_example
               (GetUnderlyingObject analyses_example 1)"
      "uncacheable_by_default loads_example analyses_example caller_marks_example
               (GetUnderlyingObject analyses_example 2)"
      "\<not> uncacheable_by_default loads_example analyses_example caller_marks_example
               (GetUnderlyingObject analyses_example 3)"
    by (simp_all add: uncacheable_by_default_def loads_example_def analyses_example_def
          caller_marks_example_def)

lemma loads_example_written: "written_later loads_example analyses_example 20"
      "\<not> written_later loads_example analyses_example 22"
    by (simp_all add: written_later_def loads_example_instructions)
       (simp_all add: analyses_example_def certain_malloc_or_free_call_def loads_example_def)

theorem compute_uncacheable_load_map_iff_witness:
  "(case compute_uncacheable_load_map loads_example analyses_example caller_marks_example of
      Inl e \<Rightarrow> False
    | Inr m \<Rightarrow> m 20 = Some True \<and> m 21 = Some True \<and> m 22 = Some False)"
proof -
  note t = compute_uncacheable_load_map_iff[of loads_example analyses_example caller_marks_example]
  note t1 = t[THEN conjunct1, rule_format] and t2 = t[THEN conjunct2, THEN mp]
  from t2[OF loads_example_known] obtain m where
    m: "compute_uncacheable_load_map loads_example analyses_example caller_marks_example = Inr m" ..
  have k: "kind loads_example 20 = Instruction (Load 1)" "kind loads_example 21 = Instruction (Load 2)"
      "kind loads_example 22 = Instruction (Load 3)"
    by (simp_all add: loads_example_def)
  have i: "20 \<in> set (instructions loads_example)" "21 \<in> set (instructions loads_example)"
      "22 \<in> set (instructions loads_example)"
    by (simp_all add: loads_example_instructions)
  from t1[OF m i(1) k(1)] t1[OF m i(2) k(2)] t1[OF m i(3) k(3)]
       loads_example_default loads_example_written
  have "m 20 = Some True \<and> m 21 = Some True \<and> m 22 = Some False"
    by simp
  with m show ?thesis by simp
qed

section \<open>The cacheability analyzer: call arguments (lines 170-354)\<close>

text \<open>
  \<open>compute_uncacheable_args_for_one_callsite\<close>. First loop (lines 178-236): the initial
  safety of an argument from the underlying object of the operand. Unlike the load
  analysis, \<open>isCertainMallocOrFree\<close> is asked without a null test on \<open>called\<close>.
\<close>

definition arg_init_safe ::
  "ir_function \<Rightarrow> analyses \<Rightarrow> (vname \<rightharpoonup> bool) \<Rightarrow> vname \<Rightarrow> failure + bool" where
  "arg_init_safe F A parent_uncacheable_args obj =
     (case kind F obj of
        Argument \<Rightarrow>
          (case parent_uncacheable_args obj of
             None \<Rightarrow> Inl AssertionFailed
           | Some found \<Rightarrow> Inr (if found then False else True))
      | Instruction (CallInst cv args) \<Rightarrow>
          (if \<not> isCertainMallocOrFree A (resolve_called A cv) then Inr False else Inr True)
      | Instruction (Load p) \<Rightarrow> Inr False
      | _ \<Rightarrow> Inr False)"

fun init_args_safe ::
  "ir_function \<Rightarrow> analyses \<Rightarrow> (vname \<rightharpoonup> bool) \<Rightarrow> vname list \<Rightarrow> failure + bool list" where
  "init_args_safe F A parent_uncacheable_args [] = Inr []"
| "init_args_safe F A parent_uncacheable_args (a # as) =
     (case arg_init_safe F A parent_uncacheable_args (GetUnderlyingObject A a) of
        Inl e \<Rightarrow> Inl e
      | Inr init_safe \<Rightarrow>
          (case init_args_safe F A parent_uncacheable_args as of
             Inl e \<Rightarrow> Inl e
           | Inr args_safe \<Rightarrow> Inr (init_safe # args_safe)))"

text \<open>
  Second loop (lines 240-298). A store that does not dominate the call site clears the
  flag of every argument it may write; so does a call that is not a certain malloc or free,
  for the pointer arguments only.
\<close>

definition store_clears :: "analyses \<Rightarrow> vname \<Rightarrow> vname \<Rightarrow> bool list \<Rightarrow> bool list" where
  "store_clears A op callsite_op args_safe =
     map (\<lambda>(i, safe). if \<not> isModSet_arg A op callsite_op i then safe else False)
         (zip [0 ..< length args_safe] args_safe)"

definition call_clears ::
  "ir_function \<Rightarrow> analyses \<Rightarrow> vname \<Rightarrow> vname \<Rightarrow> vname list \<Rightarrow> bool list \<Rightarrow> bool list" where
  "call_clears F A op callsite_op args args_safe =
     map (\<lambda>(i, arg, safe).
            if type_of F arg \<noteq> PtrTy then safe
            else if \<not> isModSet_arg A op callsite_op i then safe
            else False)
         (zip [0 ..< length args_safe] (zip args args_safe))"

fun continuation_scan ::
  "ir_function \<Rightarrow> analyses \<Rightarrow> vname \<Rightarrow> vname list \<Rightarrow> vname list \<Rightarrow> bool list \<Rightarrow> bool list" where
  "continuation_scan F A callsite_op args [] args_safe = args_safe"
| "continuation_scan F A callsite_op args (inst # rest) args_safe =
     (if inst = callsite_op then continuation_scan F A callsite_op args rest args_safe
      else if \<not> dominates A inst callsite_op then
        (case kind F inst of
           Instruction (Store v p) \<Rightarrow>
             continuation_scan F A callsite_op args rest (store_clears A inst callsite_op args_safe)
         | Instruction (CallInst cv cargs) \<Rightarrow>
             (if isCertainMallocOrFree A (resolve_called A cv)
                then continuation_scan F A callsite_op args rest args_safe
              else continuation_scan F A callsite_op args rest
                     (call_clears F A inst callsite_op args args_safe))
         | _ \<Rightarrow> continuation_scan F A callsite_op args rest args_safe)
      else continuation_scan F A callsite_op args rest args_safe)"

text \<open>
  The result (lines 300-312) is keyed by the callee's formal parameters, here by their
  position: \<open>arg_begin() + i\<close>. It is empty when the callee is not statically known.
\<close>

definition compute_uncacheable_args_for_one_callsite ::
  "ir_function \<Rightarrow> analyses \<Rightarrow> vname \<Rightarrow> callee \<Rightarrow> vname list \<Rightarrow> (vname \<rightharpoonup> bool)
   \<Rightarrow> failure + (nat \<rightharpoonup> bool)" where
  "compute_uncacheable_args_for_one_callsite F A callsite_op cv args parent_uncacheable_args =
     (case init_args_safe F A parent_uncacheable_args args of
        Inl e \<Rightarrow> Inl e
      | Inr init \<Rightarrow>
          (let args_safe = continuation_scan F A callsite_op args (instructions F) init
           in if getCalledFunction cv \<noteq> None
              then Inr (\<lambda>i. if i < length args then Some (\<not> args_safe ! i) else None)
              else Inr Map.empty))"

text \<open>\<open>isa<IntrinsicInst>\<close>: a call whose called function is an intrinsic.\<close>

definition isa_IntrinsicInst :: "callee \<Rightarrow> bool" where
  "isa_IntrinsicInst cv = (case getCalledFunction cv of Some f \<Rightarrow> fn_intrinsic f | None \<Rightarrow> False)"

text \<open>
  \<open>compute_uncacheable_args_for_callsites\<close> (lines 318-354). \<open>std::map::insert\<close> keeps an
  entry that is already there.
\<close>

fun callsites_loop ::
  "ir_function \<Rightarrow> analyses \<Rightarrow> (vname \<rightharpoonup> bool) \<Rightarrow> vname list \<Rightarrow> (vname \<rightharpoonup> (nat \<rightharpoonup> bool))
   \<Rightarrow> failure + (vname \<rightharpoonup> (nat \<rightharpoonup> bool))" where
  "callsites_loop F A uncacheable_args [] uncacheable_args_map = Inr uncacheable_args_map"
| "callsites_loop F A uncacheable_args (inst # rest) uncacheable_args_map =
     (case kind F inst of
        Instruction (CallInst cv args) \<Rightarrow>
          (if isa_IntrinsicInst cv
             then callsites_loop F A uncacheable_args rest uncacheable_args_map
           else
             (case compute_uncacheable_args_for_one_callsite F A inst cv args uncacheable_args of
                Inl e \<Rightarrow> Inl e
              | Inr one \<Rightarrow>
                  callsites_loop F A uncacheable_args rest
                    (fst (emplace uncacheable_args_map inst one))))
      | _ \<Rightarrow> callsites_loop F A uncacheable_args rest uncacheable_args_map)"

definition compute_uncacheable_args_for_callsites ::
  "ir_function \<Rightarrow> analyses \<Rightarrow> (vname \<rightharpoonup> bool) \<Rightarrow> failure + (vname \<rightharpoonup> (nat \<rightharpoonup> bool))" where
  "compute_uncacheable_args_for_callsites F A uncacheable_args =
     callsites_loop F A uncacheable_args (instructions F) Map.empty"

text \<open>
  The dispatch of a call during the forward pass. LLVM's \<open>InstVisitor\<close> hands a call to an
  intrinsic to \<open>visitIntrinsicInst\<close> (and its memset and memory-transfer refinements), which
  never reads the map; every other call reaches \<open>visitCallInst\<close> (lines 1327-1343), which
  asserts that the map has an entry and passes it on.
\<close>

datatype call_dispatch = ToIntrinsicVisitor | ToCallHandler "nat \<rightharpoonup> bool"

definition visit_call ::
  "ir_function \<Rightarrow> (vname \<rightharpoonup> (nat \<rightharpoonup> bool)) \<Rightarrow> vname \<Rightarrow> failure + call_dispatch" where
  "visit_call F uncacheable_args_map orig =
     (case kind F orig of
        Instruction (CallInst cv args) \<Rightarrow>
          (if isa_IntrinsicInst cv then Inr ToIntrinsicVisitor
           else (case uncacheable_args_map orig of
                   None \<Rightarrow> Inl AssertionFailed
                 | Some found \<Rightarrow> Inr (ToCallHandler found)))
      | _ \<Rightarrow> Inl AssertionFailed)"

definition nonintrinsic_call :: "ir_function \<Rightarrow> vname \<Rightarrow> bool" where
  "nonintrinsic_call F v =
     (case kind F v of Instruction (CallInst cv args) \<Rightarrow> \<not> isa_IntrinsicInst cv | _ \<Rightarrow> False)"

lemma callsites_loop_dom:
  "callsites_loop F A ua xs m0 = Inr m \<Longrightarrow>
   dom m = dom m0 \<union> {c \<in> set xs. nonintrinsic_call F c}"
proof (induction xs arbitrary: m0)
  case Nil
  then show ?case by simp
next
  case (Cons x xs)
  show ?case
  proof (cases "nonintrinsic_call F x")
    case True
    then obtain cv args where kx: "kind F x = Instruction (CallInst cv args)"
      and ni: "\<not> isa_IntrinsicInst cv"
      by (auto simp: nonintrinsic_call_def split: vkind.splits inst.splits)
    with Cons.prems obtain one where
      rest: "callsites_loop F A ua xs (fst (emplace m0 x one)) = Inr m"
      by (auto split: sum.splits)
    have "dom (fst (emplace m0 x one)) = insert x (dom m0)"
      by (auto simp: emplace_def split: option.splits)
    with Cons.IH[OF rest] True show ?thesis by auto
  next
    case False
    with Cons.prems have rest: "callsites_loop F A ua xs m0 = Inr m"
      by (auto simp: nonintrinsic_call_def split: vkind.splits inst.splits if_splits)
    from Cons.IH[OF rest] False show ?thesis by auto
  qed
qed

lemma init_args_safe_succeeds:
  "\<forall>a \<in> set as. kind F (GetUnderlyingObject A a) = Argument \<longrightarrow> ua (GetUnderlyingObject A a) \<noteq> None
   \<Longrightarrow> \<exists>s. init_args_safe F A ua as = Inr s"
proof (induction as)
  case Nil
  then show ?case by simp
next
  case (Cons a as)
  have "\<exists>s. arg_init_safe F A ua (GetUnderlyingObject A a) = Inr s"
    using Cons.prems
    by (auto simp: arg_init_safe_def split: vkind.splits inst.splits option.splits)
  moreover have "\<exists>s. init_args_safe F A ua as = Inr s"
    by (rule Cons.IH) (use Cons.prems in auto)
  ultimately show ?case by auto
qed

definition call_operands_known :: "ir_function \<Rightarrow> analyses \<Rightarrow> (vname \<rightharpoonup> bool) \<Rightarrow> vname \<Rightarrow> bool" where
  "call_operands_known F A ua c =
     (case kind F c of
        Instruction (CallInst cv args) \<Rightarrow>
          list_all (\<lambda>a. kind F (GetUnderlyingObject A a) = Argument
                          \<longrightarrow> ua (GetUnderlyingObject A a) \<noteq> None) args
      | _ \<Rightarrow> True)"

lemma callsites_loop_succeeds:
  "\<forall>c \<in> set xs. call_operands_known F A ua c
   \<Longrightarrow> \<exists>m. callsites_loop F A ua xs m0 = Inr m"
proof (induction xs arbitrary: m0)
  case Nil
  then show ?case by simp
next
  case (Cons x xs)
  have ih: "\<exists>m. callsites_loop F A ua xs m1 = Inr m" for m1
    by (rule Cons.IH) (use Cons.prems in auto)
  show ?case
  proof (cases "nonintrinsic_call F x")
    case True
    then obtain cv args where kx: "kind F x = Instruction (CallInst cv args)"
      and ni: "\<not> isa_IntrinsicInst cv"
      by (auto simp: nonintrinsic_call_def split: vkind.splits inst.splits)
    from Cons.prems kx have "\<exists>s. init_args_safe F A ua args = Inr s"
      by (intro init_args_safe_succeeds) (auto simp: call_operands_known_def list_all_iff)
    then have "\<exists>one. compute_uncacheable_args_for_one_callsite F A x cv args ua = Inr one"
      by (cases "getCalledFunction cv")
         (auto simp: compute_uncacheable_args_for_one_callsite_def Let_def)
    then obtain one where "compute_uncacheable_args_for_one_callsite F A x cv args ua = Inr one" ..
    with kx ni ih[of "fst (emplace m0 x one)"] show ?thesis by simp
  next
    case False
    with ih[of m0] show ?thesis
      by (auto simp: nonintrinsic_call_def split: vkind.splits inst.splits)
  qed
qed

text \<open>
  C8, as amended. When \<open>compute_uncacheable_args_for_callsites\<close> returns, its map has an
  entry for exactly the call sites of the function that are not calls to an intrinsic, the
  calls whose callee is not statically known included. Calls to intrinsics are skipped on
  purpose (line 327: "We do not need uncacheable args for intrinsic functions"); they are
  dispatched to the intrinsic visitor, so the lookup made when a call is dispatched succeeds
  for every call of the function. The map is returned whenever the caller's map covers every
  argument that is the underlying object of a call operand.
\<close>

theorem callsites_map_entries:
  "(compute_uncacheable_args_for_callsites F A uncacheable_args = Inr uncacheable_args_map
      \<longrightarrow> dom uncacheable_args_map = {c \<in> set (instructions F). nonintrinsic_call F c}
        \<and> (\<forall>c \<in> set (instructions F). \<forall>cv args. kind F c = Instruction (CallInst cv args)
              \<longrightarrow> (\<exists>d. visit_call F uncacheable_args_map c = Inr d)))
   \<and> ((\<forall>c \<in> set (instructions F). call_operands_known F A uncacheable_args c)
      \<longrightarrow> (\<exists>m. compute_uncacheable_args_for_callsites F A uncacheable_args = Inr m))"
proof (intro conjI impI)
  assume r: "compute_uncacheable_args_for_callsites F A uncacheable_args = Inr uncacheable_args_map"
  from callsites_loop_dom[OF r[unfolded compute_uncacheable_args_for_callsites_def]]
  show d: "dom uncacheable_args_map = {c \<in> set (instructions F). nonintrinsic_call F c}"
    by simp
  show "\<forall>c \<in> set (instructions F). \<forall>cv args. kind F c = Instruction (CallInst cv args)
              \<longrightarrow> (\<exists>d. visit_call F uncacheable_args_map c = Inr d)"
  proof (intro ballI allI impI)
    fix c cv args
    assume c: "c \<in> set (instructions F)" and k: "kind F c = Instruction (CallInst cv args)"
    show "\<exists>d. visit_call F uncacheable_args_map c = Inr d"
    proof (cases "isa_IntrinsicInst cv")
      case True
      with k show ?thesis by (simp add: visit_call_def)
    next
      case False
      with c k d have "c \<in> dom uncacheable_args_map" by (simp add: nonintrinsic_call_def)
      with k False show ?thesis by (auto simp: visit_call_def)
    qed
  qed
next
  assume "\<forall>c \<in> set (instructions F). call_operands_known F A uncacheable_args c"
  then show "\<exists>m. compute_uncacheable_args_for_callsites F A uncacheable_args = Inr m"
    unfolding compute_uncacheable_args_for_callsites_def by (rule callsites_loop_succeeds)
qed

text \<open>
  A block with three calls: 40 calls the intrinsic \<open>llvm.sqrt.f64\<close>, 41 calls the function
  \<open>g\<close> directly, 42 calls through the pointer 3.
\<close>

definition sqrt_intrinsic :: llvm_function where
  "sqrt_intrinsic = \<lparr> fn_name = ''llvm.sqrt.f64'', fn_empty = True, fn_readnone = True,
     fn_param_readonly = (\<lambda>i. False), fn_param_readnone = (\<lambda>i. False), fn_intrinsic = True \<rparr>"

definition calls_example :: ir_function where
  "calls_example = \<lparr> blocks = [0],
     body = (\<lambda>b. if b = 0 then [40, 41, 42] else []),
     terminator = (\<lambda>b. 50),
     parent = (\<lambda>v. 0),
     kind = (\<lambda>v. if v = 1 \<or> v = 2 \<or> v = 3 then Argument
                  else if v = 40 then Instruction (CallInst (DirectCallee sqrt_intrinsic) [1])
                  else if v = 41 then Instruction (CallInst (DirectCallee callee_example) [2])
                  else if v = 42 then Instruction (CallInst (IndirectCallee 3) [2])
                  else if v = 50 then Instruction (Ret None)
                  else OtherValue),
     type_of = (\<lambda>v. if v = 2 \<or> v = 3 then PtrTy else if v = 50 then VoidTy else FPTy) \<rparr>"

lemma calls_example_instructions: "instructions calls_example = [40, 41, 42, 50]"
  by (simp add: instructions_def calls_example_def)

lemma calls_example_kinds:
  "kind calls_example 40 = Instruction (CallInst (DirectCallee sqrt_intrinsic) [1])"
  "kind calls_example 41 = Instruction (CallInst (DirectCallee callee_example) [2])"
  "kind calls_example 42 = Instruction (CallInst (IndirectCallee 3) [2])"
  "kind calls_example 50 = Instruction (Ret None)"
  by (simp_all add: calls_example_def)

lemma calls_example_nonintrinsic:
  "\<not> nonintrinsic_call calls_example 40" "nonintrinsic_call calls_example 41"
  "nonintrinsic_call calls_example 42" "\<not> nonintrinsic_call calls_example 50"
  by (simp_all add: nonintrinsic_call_def calls_example_kinds isa_IntrinsicInst_def
        sqrt_intrinsic_def callee_example_def)

lemma calls_example_known:
  "\<forall>c \<in> set (instructions calls_example).
      call_operands_known calls_example analyses_example caller_marks_example c"
  apply (simp add: calls_example_instructions call_operands_known_def calls_example_kinds)
  apply (simp add: analyses_example_def caller_marks_example_def)
  apply blast
  done

lemma calls_example_returns:
  "compute_uncacheable_args_for_callsites calls_example analyses_example caller_marks_example
     = Inr (projr (compute_uncacheable_args_for_callsites calls_example analyses_example
                     caller_marks_example))"
proof -
  from callsites_loop_succeeds[OF calls_example_known, of Map.empty]
  obtain m where "compute_uncacheable_args_for_callsites calls_example analyses_example
      caller_marks_example = Inr m"
    unfolding compute_uncacheable_args_for_callsites_def ..
  then show ?thesis by simp
qed

text \<open>
  C8 as stated fails: the claim counts intrinsic call sites among those that have an entry,
  and the call 40 to \<open>llvm.sqrt.f64\<close> is a call site of the function for which the map
  returned has none.
\<close>

theorem intrinsic_callsite_has_no_entry:
  "40 \<in> set (instructions calls_example)
   \<and> kind calls_example 40 = Instruction (CallInst (DirectCallee sqrt_intrinsic) [1])
   \<and> \<not> isl (compute_uncacheable_args_for_callsites calls_example analyses_example caller_marks_example)
   \<and> projr (compute_uncacheable_args_for_callsites calls_example analyses_example
               caller_marks_example) 40 = None"
proof -
  let ?m = "projr (compute_uncacheable_args_for_callsites calls_example analyses_example
               caller_marks_example)"
  from callsites_loop_dom[OF calls_example_returns[unfolded compute_uncacheable_args_for_callsites_def]]
  have "dom ?m = {c \<in> set (instructions calls_example). nonintrinsic_call calls_example c}"
    by (simp add: compute_uncacheable_args_for_callsites_def)
  then have "40 \<notin> dom ?m" using calls_example_nonintrinsic by simp
  then have "?m 40 = None" by auto
  moreover have "\<not> isl (compute_uncacheable_args_for_callsites calls_example analyses_example
      caller_marks_example)"
    by (subst calls_example_returns) simp
  ultimately show ?thesis
    by (simp add: calls_example_instructions calls_example_kinds)
qed

theorem callsites_map_entries_witness:
  "\<not> isl (compute_uncacheable_args_for_callsites calls_example analyses_example caller_marks_example)
   \<and> dom (projr (compute_uncacheable_args_for_callsites calls_example analyses_example
               caller_marks_example)) = {41, 42}
   \<and> \<not> isl (visit_call calls_example
              (projr (compute_uncacheable_args_for_callsites calls_example analyses_example
                 caller_marks_example)) 40)
   \<and> \<not> isl (visit_call calls_example
              (projr (compute_uncacheable_args_for_callsites calls_example analyses_example
                 caller_marks_example)) 42)"
proof -
  let ?r = "compute_uncacheable_args_for_callsites calls_example analyses_example caller_marks_example"
  note t = callsites_map_entries[of calls_example analyses_example caller_marks_example]
  from t[THEN conjunct2, THEN mp, OF calls_example_known]
  obtain m where m: "?r = Inr m" ..
  note t1 = t[of m, THEN conjunct1, THEN mp, OF m]
  from t1 have "dom m = {c \<in> set (instructions calls_example). nonintrinsic_call calls_example c}"
    by simp
  then have d: "dom m = {41, 42}"
    using calls_example_nonintrinsic by (auto simp: calls_example_instructions)
  from t1 have v: "\<forall>c \<in> set (instructions calls_example). \<forall>cv args.
      kind calls_example c = Instruction (CallInst cv args)
       \<longrightarrow> (\<exists>d. visit_call calls_example m c = Inr d)"
    by simp
  from v calls_example_kinds(1) have "\<exists>d. visit_call calls_example m 40 = Inr d"
    by (simp add: calls_example_instructions)
  moreover from v calls_example_kinds(3) have "\<exists>d. visit_call calls_example m 42 = Inr d"
    by (simp add: calls_example_instructions)
  ultimately show ?thesis using m d by auto
qed

section \<open>The liveness-in-reverse analyzer (\<open>is_value_needed_in_reverse\<close>, lines 363-497)\<close>

















datatype loop_step = ReturnTrue | Continue


























section \<open>The instruction dispatcher: what the handlers emit\<close>

datatype derivative_mode = Forward | Reverse | Both

text \<open>
  The reverse-pass builder appends instructions; the helpers \<open>diffe\<close>, \<open>setDiffe\<close>,
  \<open>addToDiffe\<close> and \<open>lookup\<close> belong to \<open>DiffeGradientUtils\<close>. What a handler emits is kept
  as the list of these calls in the order made, over the values it builds: \<open>Idiff\<close> is the
  value \<open>diffe (&BO)\<close> returned, read before anything is written.
\<close>

datatype expr =
    Idiff
  | Lookup vname
  | Operand vname
  | NullValue
  | FMulE expr expr
  | FDivE expr expr
  | FNegE expr
  | ShlE expr expr

datatype adding_type = TypeOfValue vname | FloatType fp_type

datatype emitted =
    ReadDiffe vname
  | SetDiffe vname expr
  | AddToDiffe vname expr adding_type

subsection \<open>\<open>visitBinaryOperator\<close> (lines 872-947)\<close>

text \<open>The label \<open>done\<close> and the three statements after it.\<close>

definition binop_done ::
  "vname \<Rightarrow> vname \<Rightarrow> vname \<Rightarrow> expr option \<Rightarrow> expr option \<Rightarrow> adding_type \<Rightarrow> emitted list" where
  "binop_done BO op0 op1 dif0 dif1 addingType =
     (if dif0 \<noteq> None \<or> dif1 \<noteq> None then [SetDiffe BO NullValue] else [])
     @ (case dif0 of Some d \<Rightarrow> [AddToDiffe op0 d addingType] | None \<Rightarrow> [])
     @ (case dif1 of Some d \<Rightarrow> [AddToDiffe op1 d addingType] | None \<Rightarrow> [])"

text \<open>
  The comparison \<open>ci->getSExtValue() >= bits\<close> and the remainder are taken between a signed
  64-bit value and the unsigned size, so the value is first read as unsigned.
\<close>

definition lshr_whole_floats :: "int \<Rightarrow> nat \<Rightarrow> bool" where
  "lshr_whole_floats ci bits = (ci mod 2 ^ 64 \<ge> int bits \<and> (ci mod 2 ^ 64) mod int bits = 0)"

definition visitBinaryOperator ::
  "derivative_mode \<Rightarrow> gradient_utils \<Rightarrow> type_results \<Rightarrow> ir_function
   \<Rightarrow> vname \<Rightarrow> binop \<Rightarrow> vname \<Rightarrow> vname \<Rightarrow> failure + emitted list" where
  "visitBinaryOperator mode g TR F BO opcode op0 op1 =
     (if mode \<noteq> Reverse \<and> mode \<noteq> Both then Inr []
      else if isConstantValue g BO then Inr []
      else if type_of F BO = IntTy \<and> intType TR BO = DT_Pointer then Inr []
      else
        (let unknown = Inl (FatalError ''unknown binary operator'');
             finish = (\<lambda>dif0 dif1 addingType.
                         Inr (ReadDiffe BO # binop_done BO op0 op1 dif0 dif1 addingType))
         in case opcode of
              FMul \<Rightarrow>
                finish (if \<not> isConstantValue g op0 then Some (FMulE Idiff (Lookup op1)) else None)
                       (if \<not> isConstantValue g op1 then Some (FMulE Idiff (Lookup op0)) else None)
                       (TypeOfValue BO)
            | FAdd \<Rightarrow>
                finish (if \<not> isConstantValue g op0 then Some Idiff else None)
                       (if \<not> isConstantValue g op1 then Some Idiff else None)
                       (TypeOfValue BO)
            | FSub \<Rightarrow>
                finish (if \<not> isConstantValue g op0 then Some Idiff else None)
                       (if \<not> isConstantValue g op1 then Some (FNegE Idiff) else None)
                       (TypeOfValue BO)
            | FDiv \<Rightarrow>
                finish (if \<not> isConstantValue g op0 then Some (FDivE Idiff (Lookup op1)) else None)
                       (if \<not> isConstantValue g op1
                        then Some (FNegE (FDivE (FMulE Idiff (Lookup BO)) (Lookup op1))) else None)
                       (TypeOfValue BO)
            | LShr \<Rightarrow>
                (if \<not> isConstantValue g op0 then
                   (case kind F op1 of
                      ConstantInt ci \<Rightarrow>
                        (case isFloat (intType TR op0) of
                           Some flt \<Rightarrow>
                             (if lshr_whole_floats ci (typeAllocSizeInBits TR flt)
                              then finish (Some (ShlE Idiff (Operand op1))) None (FloatType flt)
                              else unknown)
                         | None \<Rightarrow> unknown)
                    | _ \<Rightarrow> unknown)
                 else unknown)
            | _ \<Rightarrow> unknown))"

text \<open>The table of the specification: the adjoints of the two operands of \<open>r = a op b\<close>,
  over the differential of \<open>r\<close> read on entry. \<open>d(b) -= x\<close> is \<open>d(b) += -x\<close>.\<close>

fun tabulated_adjoint :: "binop \<Rightarrow> vname \<Rightarrow> vname \<Rightarrow> vname \<Rightarrow> (expr \<times> expr) option" where
  "tabulated_adjoint FMul r a b = Some (FMulE Idiff (Lookup b), FMulE Idiff (Lookup a))"
| "tabulated_adjoint FAdd r a b = Some (Idiff, Idiff)"
| "tabulated_adjoint FSub r a b = Some (Idiff, FNegE Idiff)"
| "tabulated_adjoint FDiv r a b =
     Some (FDivE Idiff (Lookup b), FNegE (FDivE (FMulE Idiff (Lookup r)) (Lookup b)))"
| "tabulated_adjoint _ r a b = None"

text \<open>The exception of the claim: a logical shift right of a secret float by a constant
  number of whole floats.\<close>

definition lshr_of_secret_float ::
  "gradient_utils \<Rightarrow> type_results \<Rightarrow> ir_function \<Rightarrow> binop \<Rightarrow> vname \<Rightarrow> vname \<Rightarrow> bool" where
  "lshr_of_secret_float g TR F opcode a b =
     (opcode = LShr \<and> \<not> isConstantValue g a
      \<and> (\<exists>ci flt. kind F b = ConstantInt ci \<and> intType TR a = DT_Float flt
                   \<and> lshr_whole_floats ci (typeAllocSizeInBits TR flt)))"

text \<open>
  C4, as amended. In the reverse pass (modes \<open>Reverse\<close> and \<open>Both\<close>), for an active binary
  operation \<open>r = a op b\<close> whose result is not an integer that the type analysis classifies
  as a pointer: when \<open>op\<close> is one of \<open>fmul\<close>, \<open>fadd\<close>, \<open>fsub\<close>, \<open>fdiv\<close>, the handler reads
  \<open>d(r)\<close>, sets \<open>d(r) := 0\<close> if at least one operand is non-constant, and then adds to each
  non-constant operand exactly the tabulated adjoint of the value read; any other opcode,
  except the logical shift right of a secret float by whole floats, stops with the fatal
  error. An active integer result classified as a pointer is skipped without an error,
  whatever its opcode.
\<close>

theorem visitBinaryOperator_adjoints:
  assumes "mode = Reverse \<or> mode = Both"
    and "\<not> isConstantValue g r"
  shows "(\<not> (type_of F r = IntTy \<and> intType TR r = DT_Pointer)
            \<and> tabulated_adjoint opcode r a b = Some (da, db) \<longrightarrow>
            visitBinaryOperator mode g TR F r opcode a b =
              Inr (ReadDiffe r
                   # (if \<not> isConstantValue g a \<or> \<not> isConstantValue g b
                      then [SetDiffe r NullValue] else [])
                   @ (if \<not> isConstantValue g a then [AddToDiffe a da (TypeOfValue r)] else [])
                   @ (if \<not> isConstantValue g b then [AddToDiffe b db (TypeOfValue r)] else [])))
     \<and> (\<not> (type_of F r = IntTy \<and> intType TR r = DT_Pointer)
            \<and> tabulated_adjoint opcode r a b = None
            \<and> \<not> lshr_of_secret_float g TR F opcode a b \<longrightarrow>
            visitBinaryOperator mode g TR F r opcode a b = Inl (FatalError ''unknown binary operator''))
     \<and> (type_of F r = IntTy \<and> intType TR r = DT_Pointer \<longrightarrow>
            visitBinaryOperator mode g TR F r opcode a b = Inr [])"
proof (intro conjI impI)
  assume "\<not> (type_of F r = IntTy \<and> intType TR r = DT_Pointer)
            \<and> tabulated_adjoint opcode r a b = Some (da, db)"
  then show "visitBinaryOperator mode g TR F r opcode a b =
              Inr (ReadDiffe r
                   # (if \<not> isConstantValue g a \<or> \<not> isConstantValue g b
                      then [SetDiffe r NullValue] else [])
                   @ (if \<not> isConstantValue g a then [AddToDiffe a da (TypeOfValue r)] else [])
                   @ (if \<not> isConstantValue g b then [AddToDiffe b db (TypeOfValue r)] else []))"
    using assms
    by (cases opcode) (auto simp: visitBinaryOperator_def binop_done_def Let_def)
next
  assume h: "\<not> (type_of F r = IntTy \<and> intType TR r = DT_Pointer)
            \<and> tabulated_adjoint opcode r a b = None
            \<and> \<not> lshr_of_secret_float g TR F opcode a b"
  show "visitBinaryOperator mode g TR F r opcode a b = Inl (FatalError ''unknown binary operator'')"
  proof (cases "opcode = LShr")
    case True
    with h assms show ?thesis
      by (cases "kind F b"; cases "intType TR a")
         (auto simp: visitBinaryOperator_def lshr_of_secret_float_def Let_def)
  next
    case False
    with h assms show ?thesis
      by (cases opcode) (auto simp: visitBinaryOperator_def Let_def)
  qed
next
  assume "type_of F r = IntTy \<and> intType TR r = DT_Pointer"
  then show "visitBinaryOperator mode g TR F r opcode a b = Inr []"
    by (simp add: visitBinaryOperator_def)
qed

text \<open>
  Four binary operations on the arguments 2 and 3: the integer addition 60, which the
  type analysis classifies as a pointer, the float operations 61 (\<open>fmul\<close>) and 62
  (\<open>fdiv\<close>), and the integer \<open>xor\<close> 63.
\<close>

definition binops_example :: ir_function where
  "binops_example = \<lparr> blocks = [0],
     body = (\<lambda>b. if b = 0 then [60, 61, 62, 63] else []),
     terminator = (\<lambda>b. 70),
     parent = (\<lambda>v. 0),
     kind = (\<lambda>v. if v = 2 \<or> v = 3 then Argument
                  else if v = 60 then Instruction (BinaryOperator Add 2 3)
                  else if v = 61 then Instruction (BinaryOperator FMul 2 3)
                  else if v = 62 then Instruction (BinaryOperator FDiv 2 3)
                  else if v = 63 then Instruction (BinaryOperator Xor 2 3)
                  else if v = 70 then Instruction (Ret None)
                  else OtherValue),
     type_of = (\<lambda>v. if v = 60 \<or> v = 63 then IntTy else if v = 70 then VoidTy else FPTy) \<rparr>"

definition type_results_example :: type_results where
  "type_results_example = \<lparr>
     intType = (\<lambda>v. if v = 60 then DT_Pointer else DT_Unknown),
     isPossiblePointer = (\<lambda>v. v = 60),
     firstPointer = (\<lambda>n v. Inr (DT_Float DoubleTy)),
     typeAllocSizeInBits = (\<lambda>t. case t of HalfTy \<Rightarrow> 16 | FloatTy \<Rightarrow> 32 | DoubleTy \<Rightarrow> 64
                                  | X86_FP80Ty \<Rightarrow> 128 | FP128Ty \<Rightarrow> 128) \<rparr>"

definition only_result_active :: gradient_utils where
  "only_result_active = \<lparr> isConstantValue = (\<lambda>v. v = 2 \<or> v = 3),
                           isConstantInstruction = (\<lambda>v. False) \<rparr>"

text \<open>
  C4 as stated fails in two places. The addition 60 is active and is none of the four float
  operations nor a shift, yet the handler returns without an error, because its result is
  an integer classified as a pointer (line 877). And for the active \<open>fmul\<close> 61 whose two
  operands are constant values, \<open>d(r)\<close> is read but never set to zero (line 944).
\<close>

theorem visitBinaryOperator_no_fatal_no_reset:
  "\<not> isConstantValue all_active 60
   \<and> visitBinaryOperator Reverse all_active type_results_example binops_example 60 Add 2 3 = Inr []
   \<and> \<not> isConstantValue only_result_active 61
   \<and> visitBinaryOperator Reverse only_result_active type_results_example binops_example 61 FMul 2 3
       = Inr [ReadDiffe 61]"
  by (simp add: visitBinaryOperator_def all_active_def only_result_active_def
        type_results_example_def binops_example_def binop_done_def)

theorem visitBinaryOperator_adjoints_witness:
  "visitBinaryOperator Reverse all_active type_results_example binops_example 62 FDiv 2 3
     = Inr [ReadDiffe 62, SetDiffe 62 NullValue,
            AddToDiffe 2 (FDivE Idiff (Lookup 3)) (TypeOfValue 62),
            AddToDiffe 3 (FNegE (FDivE (FMulE Idiff (Lookup 62)) (Lookup 3))) (TypeOfValue 62)]
   \<and> visitBinaryOperator Both all_active type_results_example binops_example 63 Xor 2 3
     = Inl (FatalError ''unknown binary operator'')
   \<and> visitBinaryOperator Both all_active type_results_example binops_example 60 Add 2 3 = Inr []"
proof -
  have a: "\<not> isConstantValue all_active v" for v by (simp add: all_active_def)
  have p: "\<not> (type_of binops_example 62 = IntTy \<and> intType type_results_example 62 = DT_Pointer)"
     "\<not> (type_of binops_example 63 = IntTy \<and> intType type_results_example 63 = DT_Pointer)"
     "type_of binops_example 60 = IntTy \<and> intType type_results_example 60 = DT_Pointer"
    by (simp_all add: binops_example_def type_results_example_def)
  have l: "\<not> lshr_of_secret_float all_active type_results_example binops_example Xor 2 3"
    by (simp add: lshr_of_secret_float_def)
  note t1 = visitBinaryOperator_adjoints[of Reverse all_active 62 binops_example
      type_results_example FDiv 2 3 "FDivE Idiff (Lookup 3)"
      "FNegE (FDivE (FMulE Idiff (Lookup 62)) (Lookup 3))"]
  note t2 = visitBinaryOperator_adjoints[of Both all_active 63 binops_example
      type_results_example Xor 2 3]
  note t3 = visitBinaryOperator_adjoints[of Both all_active 60 binops_example
      type_results_example Add 2 3]
  from t1 a p(1) have "visitBinaryOperator Reverse all_active type_results_example binops_example 62 FDiv 2 3
     = Inr [ReadDiffe 62, SetDiffe 62 NullValue,
            AddToDiffe 2 (FDivE Idiff (Lookup 3)) (TypeOfValue 62),
            AddToDiffe 3 (FNegE (FDivE (FMulE Idiff (Lookup 62)) (Lookup 3))) (TypeOfValue 62)]"
    by simp
  moreover from t2 a p(2) l have "visitBinaryOperator Both all_active type_results_example binops_example 63 Xor 2 3
     = Inl (FatalError ''unknown binary operator'')"
    by simp
  moreover from t3 a p(3) have "visitBinaryOperator Both all_active type_results_example binops_example 60 Add 2 3 = Inr []"
    by simp
  ultimately show ?thesis by simp
qed

subsection \<open>\<open>visitStoreInst\<close> (lines 730-792)\<close>

datatype atomic_ordering = NotAtomic | Unordered | Monotonic | Acquire | Release
  | AcquireRelease | SequentiallyConsistent

record store_attrs =
  alignment :: nat
  is_volatile :: bool
  ordering :: atomic_ordering
  sync_scope :: nat

text \<open>A store the builder has just created: no alignment, not volatile, not atomic,
  system scope.\<close>

definition fresh_store_attrs :: store_attrs where
  "fresh_store_attrs = \<lparr> alignment = 0, is_volatile = False, ordering = NotAtomic, sync_scope = 1 \<rparr>"

text \<open>
  What the handler appends, to the reverse block or in front of the store: a load of the
  shadow of a pointer with an alignment, a store of a value into the shadow of a pointer
  with its attributes, an accumulation into a differential.
\<close>

datatype stored_value = ZeroValue | PrimalValue vname | ShadowOf vname

datatype diffe_type = ScalarTypeOf vname | SecretFloat fp_type

datatype store_emitted =
    ShadowLoad vname nat
  | ShadowStore vname stored_value store_attrs
  | AddLoadedToDiffe vname diffe_type

text \<open>
  Modelled from the spec: \<open>setPtrDiffe\<close> belongs to \<open>GradientUtils\<close>, which is not in the
  file. It writes the value given through the shadow of the pointer ("zero \<open>*p'\<close>",
  "\<open>*p' := v'\<close>") and returns the store it created.
\<close>

definition setPtrDiffe :: "vname \<Rightarrow> stored_value \<Rightarrow> store_emitted" where
  "setPtrDiffe ptr dif = ShadowStore ptr dif fresh_store_attrs"

text \<open>Lines 786-791: the four setters applied to \<open>ts\<close>.\<close>

fun copy_store_attrs :: "store_attrs \<Rightarrow> store_emitted \<Rightarrow> store_emitted" where
  "copy_store_attrs SI (ShadowStore p v a) =
     ShadowStore p v (a\<lparr> alignment := alignment SI, is_volatile := is_volatile SI,
                          ordering := ordering SI, sync_scope := sync_scope SI \<rparr>)"
| "copy_store_attrs SI e = e"

text \<open>Lines 743-749: the float type stored, if any. \<open>storeSize\<close> is the size of the value's
  type in bytes, from the data layout.\<close>

definition stored_float_type ::
  "type_results \<Rightarrow> ir_function \<Rightarrow> nat \<Rightarrow> vname \<Rightarrow> vname \<Rightarrow> failure + diffe_type option" where
  "stored_float_type TR F storeSize ptr val =
     (if type_of F val = FPTy then Inr (Some (ScalarTypeOf val))
      else if type_of F val \<noteq> PtrTy then
        (case firstPointer TR storeSize ptr of
           Inl e \<Rightarrow> Inl e
         | Inr dt \<Rightarrow> Inr (map_option SecretFloat (isFloat dt)))
      else Inr None)"

text \<open>The result is the code placed in front of the store and the code appended to the
  reverse block.\<close>

definition visitStoreInst ::
  "derivative_mode \<Rightarrow> gradient_utils \<Rightarrow> type_results \<Rightarrow> ir_function \<Rightarrow> nat
   \<Rightarrow> store_attrs \<Rightarrow> vname \<Rightarrow> vname \<Rightarrow> failure + (store_emitted list \<times> store_emitted list)" where
  "visitStoreInst mode g TR F storeSize SI ptr val =
     (if isConstantValue g ptr then Inr ([], [])
      else
        (case stored_float_type TR F storeSize ptr val of
           Inl e \<Rightarrow> Inl e
         | Inr (Some FT) \<Rightarrow>
             (if mode = Reverse \<or> mode = Both then
                (if isConstantValue g val
                 then (let ts = setPtrDiffe ptr ZeroValue
                       in Inr ([], [copy_store_attrs SI ts]))
                 else (let dif1 = ShadowLoad ptr (alignment SI);
                           ts = setPtrDiffe ptr ZeroValue
                       in Inr ([], [dif1, copy_store_attrs SI ts, AddLoadedToDiffe val FT])))
              else Inr ([], []))
         | Inr None \<Rightarrow>
             (if mode = Forward \<or> mode = Both then
                (let valueop = (if isConstantValue g val then PrimalValue val else ShadowOf val);
                     ts = setPtrDiffe ptr valueop
                 in Inr ([copy_store_attrs SI ts], []))
              else Inr ([], []))))"

lemma copy_store_attrs_fresh:
  "copy_store_attrs SI (setPtrDiffe p v) = ShadowStore p v SI"
  by (simp add: setPtrDiffe_def fresh_store_attrs_def)

text \<open>
  C6, as amended. For every store of a value \<open>v\<close> whose type is or contains a float through
  a non-constant pointer \<open>p\<close>, the reverse pass (modes \<open>Reverse\<close> and \<open>Both\<close>) zeroes the
  shadow \<open>*p'\<close> when \<open>v\<close> is a constant value, and otherwise loads \<open>dif = *p'\<close>, zeroes \<open>*p'\<close>
  and accumulates \<open>dif\<close> into \<open>d(v)\<close>; an integer or pointer stored through a non-constant
  pointer is mirrored in the forward pass. Every mirrored store that is emitted carries the
  alignment, volatility, atomic ordering and sync scope of the original store. A store
  through a constant pointer is left alone.
\<close>

theorem visitStoreInst_mirrors:
  "(\<not> isConstantValue g p \<and> (mode = Reverse \<or> mode = Both)
      \<and> stored_float_type TR F storeSize p v = Inr (Some FT) \<longrightarrow>
      visitStoreInst mode g TR F storeSize SI p v =
        (if isConstantValue g v then Inr ([], [ShadowStore p ZeroValue SI])
         else Inr ([], [ShadowLoad p (alignment SI), ShadowStore p ZeroValue SI,
                        AddLoadedToDiffe v FT])))
   \<and> (\<not> isConstantValue g p \<and> (mode = Forward \<or> mode = Both)
      \<and> stored_float_type TR F storeSize p v = Inr None \<longrightarrow>
      visitStoreInst mode g TR F storeSize SI p v =
        Inr ([ShadowStore p (if isConstantValue g v then PrimalValue v else ShadowOf v) SI], []))
   \<and> (visitStoreInst mode g TR F storeSize SI p v = Inr (fwd, bwd) \<longrightarrow>
        (\<forall>q w a. ShadowStore q w a \<in> set (fwd @ bwd) \<longrightarrow> a = SI))
   \<and> (isConstantValue g p \<longrightarrow> visitStoreInst mode g TR F storeSize SI p v = Inr ([], []))"
proof (intro conjI impI allI)
  assume "\<not> isConstantValue g p \<and> (mode = Reverse \<or> mode = Both)
      \<and> stored_float_type TR F storeSize p v = Inr (Some FT)"
  then show "visitStoreInst mode g TR F storeSize SI p v =
        (if isConstantValue g v then Inr ([], [ShadowStore p ZeroValue SI])
         else Inr ([], [ShadowLoad p (alignment SI), ShadowStore p ZeroValue SI,
                        AddLoadedToDiffe v FT]))"
    by (auto simp: visitStoreInst_def copy_store_attrs_fresh Let_def)
next
  assume "\<not> isConstantValue g p \<and> (mode = Forward \<or> mode = Both)
      \<and> stored_float_type TR F storeSize p v = Inr None"
  then show "visitStoreInst mode g TR F storeSize SI p v =
        Inr ([ShadowStore p (if isConstantValue g v then PrimalValue v else ShadowOf v) SI], [])"
    by (auto simp: visitStoreInst_def copy_store_attrs_fresh Let_def)
next
  fix q w a
  assume "visitStoreInst mode g TR F storeSize SI p v = Inr (fwd, bwd)"
    and "ShadowStore q w a \<in> set (fwd @ bwd)"
  then show "a = SI"
    by (auto simp: visitStoreInst_def copy_store_attrs_fresh Let_def
             split: if_splits sum.splits option.splits)
next
  assume "isConstantValue g p"
  then show "visitStoreInst mode g TR F storeSize SI p v = Inr ([], [])"
    by (simp add: visitStoreInst_def)
qed


text \<open>
  Two stores through the pointer argument 1: 80 stores the float argument 2, 81 stores
  the pointer argument 3. The first is volatile, 8-aligned, with release ordering.
\<close>

definition stores_example :: ir_function where
  "stores_example = \<lparr> blocks = [0],
     body = (\<lambda>b. if b = 0 then [80, 81] else []),
     terminator = (\<lambda>b. 90),
     parent = (\<lambda>v. 0),
     kind = (\<lambda>v. if v = 1 \<or> v = 2 \<or> v = 3 then Argument
                  else if v = 80 then Instruction (Store 2 1)
                  else if v = 81 then Instruction (Store 3 1)
                  else if v = 90 then Instruction (Ret None)
                  else OtherValue),
     type_of = (\<lambda>v. if v = 1 \<or> v = 3 then PtrTy else if v = 2 then FPTy else VoidTy) \<rparr>"

definition store_attrs_example :: store_attrs where
  "store_attrs_example = \<lparr> alignment = 8, is_volatile = True, ordering = Release, sync_scope = 1 \<rparr>"

definition pointer_inactive :: gradient_utils where
  "pointer_inactive = \<lparr> isConstantValue = (\<lambda>v. v = 1), isConstantInstruction = (\<lambda>v. False) \<rparr>"

text \<open>
  C6 as stated fails for a store through a constant pointer: the float argument 2 is an
  active value stored by 80, yet with the pointer 1 inactive the handler returns at line 736
  and the reverse pass neither loads nor zeroes the shadow.
\<close>

theorem visitStoreInst_constant_pointer:
  "stored_float_type type_results_example stores_example 8 1 2 = Inr (Some (ScalarTypeOf 2))
   \<and> \<not> isConstantValue pointer_inactive 2
   \<and> visitStoreInst Reverse pointer_inactive type_results_example stores_example 8
        store_attrs_example 1 2 = Inr ([], [])"
  by (simp add: visitStoreInst_def stored_float_type_def stores_example_def pointer_inactive_def)

theorem visitStoreInst_mirrors_witness:
  "visitStoreInst Reverse all_active type_results_example stores_example 8 store_attrs_example 1 2
     = Inr ([], [ShadowLoad 1 8, ShadowStore 1 ZeroValue store_attrs_example,
                 AddLoadedToDiffe 2 (ScalarTypeOf 2)])
   \<and> visitStoreInst Forward all_active type_results_example stores_example 8 store_attrs_example 1 3
     = Inr ([ShadowStore 1 (ShadowOf 3) store_attrs_example], [])
   \<and> visitStoreInst Both pointer_inactive type_results_example stores_example 8
        store_attrs_example 1 2 = Inr ([], [])"
proof -
  have a: "\<not> isConstantValue all_active x" for x by (simp add: all_active_def)
  have f: "stored_float_type type_results_example stores_example 8 1 2 = Inr (Some (ScalarTypeOf 2))"
    and n: "stored_float_type type_results_example stores_example 8 1 3 = Inr None"
    by (simp_all add: stored_float_type_def stores_example_def)
  have c: "isConstantValue pointer_inactive 1" by (simp add: pointer_inactive_def)
  from visitStoreInst_mirrors[of all_active 1 Reverse type_results_example stores_example 8 2
        "ScalarTypeOf 2" store_attrs_example] a f
  have "visitStoreInst Reverse all_active type_results_example stores_example 8 store_attrs_example 1 2
     = Inr ([], [ShadowLoad 1 8, ShadowStore 1 ZeroValue store_attrs_example,
                 AddLoadedToDiffe 2 (ScalarTypeOf 2)])"
    by (simp add: store_attrs_example_def)
  moreover from visitStoreInst_mirrors[of all_active 1 Forward type_results_example stores_example 8 3
        _ store_attrs_example] a n
  have "visitStoreInst Forward all_active type_results_example stores_example 8 store_attrs_example 1 3
     = Inr ([ShadowStore 1 (ShadowOf 3) store_attrs_example], [])"
    by simp
  moreover from visitStoreInst_mirrors[of pointer_inactive 1 Both type_results_example stores_example 8 2
        _ store_attrs_example] c
  have "visitStoreInst Both pointer_inactive type_results_example stores_example 8
        store_attrs_example 1 2 = Inr ([], [])"
    by simp
  ultimately show ?thesis by simp
qed

section \<open>The unreachable-set analyzer (\<open>getGuaranteedUnreachable\<close>, lines 1354-1392)\<close>

text \<open>
  The \<open>while (!todo.empty())\<close> loop. \<open>todo\<close> is the deque (front first), the set is
  \<open>knownUnreachables\<close>. One equation per path through the loop body, in the source's order:
  already known, a return, an unreachable, some successor not known yet, all successors known.
\<close>

function gu_loop :: "ir_function \<Rightarrow> bname set \<Rightarrow> bname list \<Rightarrow> bname set" where
  "gu_loop F knownUnreachables [] = knownUnreachables"
| "gu_loop F knownUnreachables (next # todo) =
     (if next \<in> knownUnreachables then gu_loop F knownUnreachables todo
      else if isa_ReturnInst F (terminator F next) then gu_loop F knownUnreachables todo
      else if isa_UnreachableInst F (terminator F next)
        then gu_loop F (insert next knownUnreachables) (todo @ predecessors F next)
      else if \<not> list_all (\<lambda>Succ. Succ \<in> knownUnreachables) (successors F next)
        then gu_loop F knownUnreachables todo
      else gu_loop F (insert next knownUnreachables) (todo @ predecessors F next))"
  by pat_completeness auto

lemma gu_measure:
  assumes "next \<notin> K"
  shows "card ((set (blocks F) \<union> set (todo @ predecessors F next)) - insert next K)
         < card ((set (blocks F) \<union> set (next # todo)) - K)"
proof (rule psubset_card_mono)
  show "finite ((set (blocks F) \<union> set (next # todo)) - K)" by simp
  have "set (predecessors F next) \<subseteq> set (blocks F)" by (auto simp: predecessors_def)
  then show "(set (blocks F) \<union> set (todo @ predecessors F next)) - insert next K
        \<subset> (set (blocks F) \<union> set (next # todo)) - K"
    using assms by auto
qed

lemma gu_measure_pop:
  "card ((set (blocks F) \<union> set todo) - K) \<le> card ((set (blocks F) \<union> set (next # todo)) - K)"
  by (rule card_mono) auto

termination gu_loop
proof (relation "measures [\<lambda>(F, K, todo). card ((set (blocks F) \<union> set todo) - K),
                          \<lambda>(F, K, todo). length todo]", goal_cases)
  case 1 show ?case by simp
next
  case (2 F K "next" todo)
  then show ?case using gu_measure_pop[of F todo K "next"] by auto
next
  case (3 F K "next" todo)
  then show ?case using gu_measure_pop[of F todo K "next"] by auto
next
  case (4 F K "next" todo)
  then show ?case using gu_measure[of "next" K F todo] by simp
next
  case (5 F K "next" todo)
  then show ?case using gu_measure_pop[of F todo K "next"] by auto
next
  case (6 F K "next" todo)
  then show ?case using gu_measure[of "next" K F todo] by simp
qed

definition getGuaranteedUnreachable :: "ir_function \<Rightarrow> bname set" where
  "getGuaranteedUnreachable F = gu_loop F {} (blocks F)"

text \<open>
  The set as the specification words it: the least set that holds the blocks ending in
  \<open>unreachable\<close> and every block, not ending in a return, all of whose successors it holds.
\<close>

inductive_set guaranteed_unreachable :: "ir_function \<Rightarrow> bname set" for F :: ir_function where
  seed: "b \<in> set (blocks F) \<Longrightarrow> isa_UnreachableInst F (terminator F b)
         \<Longrightarrow> b \<in> guaranteed_unreachable F"
| close: "b \<in> set (blocks F) \<Longrightarrow> \<not> isa_ReturnInst F (terminator F b)
         \<Longrightarrow> \<forall>s \<in> set (successors F b). s \<in> guaranteed_unreachable F
         \<Longrightarrow> b \<in> guaranteed_unreachable F"

definition addable :: "ir_function \<Rightarrow> bname set \<Rightarrow> bname \<Rightarrow> bool" where
  "addable F K b = (\<not> isa_ReturnInst F (terminator F b)
      \<and> (isa_UnreachableInst F (terminator F b) \<or> (\<forall>s \<in> set (successors F b). s \<in> K)))"

lemma unreachable_not_return:
  "isa_UnreachableInst F v \<Longrightarrow> \<not> isa_ReturnInst F v"
  by (auto simp: isa_UnreachableInst_def isa_ReturnInst_def split: vkind.splits inst.splits)

lemma unreachable_no_successors:
  "isa_UnreachableInst F (terminator F b) \<Longrightarrow> successors F b = []"
  by (auto simp: isa_UnreachableInst_def successors_def split: vkind.splits inst.splits)

lemma gu_loop_sound:
  "K \<subseteq> guaranteed_unreachable F \<Longrightarrow> set todo \<subseteq> set (blocks F)
   \<Longrightarrow> gu_loop F K todo \<subseteq> guaranteed_unreachable F"
proof (induction F K todo rule: gu_loop.induct)
  case (1 F K)
  then show ?case by simp
next
  case (2 F K "next" todo)
  have pre: "set (todo @ predecessors F next) \<subseteq> set (blocks F)"
    using 2 by (auto simp: predecessors_def)
  have nb: "next \<in> set (blocks F)" using 2 by simp
  show ?case
  proof (cases "next \<in> K")
    case True with 2 show ?thesis by simp
  next
    case nk: False
    show ?thesis
    proof (cases "isa_ReturnInst F (terminator F next)")
      case True with 2 nk show ?thesis by simp
    next
      case nr: False
      show ?thesis
      proof (cases "isa_UnreachableInst F (terminator F next)")
        case True
        then have "next \<in> guaranteed_unreachable F" using nb by (rule_tac seed)
        with 2 nk nr True pre show ?thesis by simp
      next
        case nu: False
        show ?thesis
        proof (cases "list_all (\<lambda>Succ. Succ \<in> K) (successors F next)")
          case True
          then have "\<forall>s \<in> set (successors F next). s \<in> guaranteed_unreachable F"
            using 2(6) by (auto simp: list_all_iff)
          then have "next \<in> guaranteed_unreachable F" using nb nr by (rule_tac close)
          with 2 nk nr nu True pre show ?thesis by simp
        next
          case False with 2 nk nr nu show ?thesis by simp
        qed
      qed
    qed
  qed
qed

lemma gu_loop_closed:
  "\<forall>b \<in> set (blocks F). b \<notin> K \<and> b \<notin> set todo \<longrightarrow> \<not> addable F K b
   \<Longrightarrow> \<forall>b \<in> set (blocks F). b \<notin> gu_loop F K todo \<longrightarrow> \<not> addable F (gu_loop F K todo) b"
proof (induction F K todo rule: gu_loop.induct)
  case (1 F K)
  then show ?case by simp
next
  case (2 F K "next" todo)
  let ?K' = "insert next K" and ?todo' = "todo @ predecessors F next"
  have step: "\<forall>b \<in> set (blocks F). b \<notin> ?K' \<and> b \<notin> set ?todo' \<longrightarrow> \<not> addable F ?K' b"
  proof (intro ballI impI)
    fix b assume b: "b \<in> set (blocks F)" and nb: "b \<notin> ?K' \<and> b \<notin> set ?todo'"
    then have np: "next \<notin> set (successors F b)" by (auto simp: predecessors_def)
    from b nb 2(6) have "\<not> addable F K b" by auto
    with np show "\<not> addable F ?K' b" by (auto simp: addable_def)
  qed
  show ?case
  proof (cases "next \<in> K")
    case True
    with 2(6) have "\<forall>b \<in> set (blocks F). b \<notin> K \<and> b \<notin> set todo \<longrightarrow> \<not> addable F K b" by auto
    with 2(1) True show ?thesis by simp
  next
    case nk: False
    show ?thesis
    proof (cases "isa_ReturnInst F (terminator F next)")
      case True
      then have "\<not> addable F K next" by (simp add: addable_def)
      with 2(6) have "\<forall>b \<in> set (blocks F). b \<notin> K \<and> b \<notin> set todo \<longrightarrow> \<not> addable F K b" by auto
      with 2(2) nk True show ?thesis by simp
    next
      case nr: False
      show ?thesis
      proof (cases "isa_UnreachableInst F (terminator F next)")
        case True
        with 2(3) nk nr step show ?thesis by simp
      next
        case nu: False
        show ?thesis
        proof (cases "list_all (\<lambda>Succ. Succ \<in> K) (successors F next)")
          case True
          with 2(5) nk nr nu step show ?thesis by simp
        next
          case False
          then have "\<not> addable F K next" using nu by (auto simp: addable_def list_all_iff)
          with 2(6) have "\<forall>b \<in> set (blocks F). b \<notin> K \<and> b \<notin> set todo \<longrightarrow> \<not> addable F K b" by auto
          with 2(4) nk nr nu False show ?thesis by simp
        qed
      qed
    qed
  qed
qed

lemma closed_complete:
  assumes "\<forall>b \<in> set (blocks F). b \<notin> K \<longrightarrow> \<not> addable F K b"
  shows "b \<in> guaranteed_unreachable F \<Longrightarrow> b \<in> K"
proof (induction rule: guaranteed_unreachable.induct)
  case (seed b)
  then show ?case using assms unreachable_not_return[of F "terminator F b"]
    by (auto simp: addable_def)
next
  case (close b)
  then show ?case using assms by (auto simp: addable_def)
qed

lemma getGuaranteedUnreachable_eq:
  "getGuaranteedUnreachable F = guaranteed_unreachable F"
proof -
  have s: "getGuaranteedUnreachable F \<subseteq> guaranteed_unreachable F"
    unfolding getGuaranteedUnreachable_def by (rule gu_loop_sound) auto
  have c: "\<forall>b \<in> set (blocks F). b \<notin> getGuaranteedUnreachable F
            \<longrightarrow> \<not> addable F (getGuaranteedUnreachable F) b"
    unfolding getGuaranteedUnreachable_def by (rule gu_loop_closed) auto
  have "guaranteed_unreachable F \<subseteq> getGuaranteedUnreachable F"
    using closed_complete[OF c] by auto
  with s show ?thesis by auto
qed

lemma guaranteed_unreachable_not_return:
  "b \<in> guaranteed_unreachable F \<Longrightarrow> \<not> isa_ReturnInst F (terminator F b)"
  by (cases rule: guaranteed_unreachable.cases) (auto dest: unreachable_not_return)

lemma guaranteed_unreachable_successors:
  "b \<in> guaranteed_unreachable F \<Longrightarrow> s \<in> set (successors F b) \<Longrightarrow> s \<in> guaranteed_unreachable F"
  by (cases rule: guaranteed_unreachable.cases) (auto dest: unreachable_no_successors)

text \<open>
  A path of the control-flow graph: a list of blocks, each after the first a successor of
  the one before it.
\<close>

fun is_path :: "ir_function \<Rightarrow> bname list \<Rightarrow> bool" where
  "is_path F [] = True"
| "is_path F [b] = True"
| "is_path F (b # c # rest) = (c \<in> set (successors F b) \<and> is_path F (c # rest))"

text \<open>
  Every path that starts at \<open>b\<close> has at most \<open>n\<close> steps, stays among the blocks of the
  function and meets no block that ends in a return.
\<close>

definition paths_end :: "ir_function \<Rightarrow> bname \<Rightarrow> nat \<Rightarrow> bool" where
  "paths_end F b n =
     (\<forall>p. is_path F (b # p) \<longrightarrow>
        length p \<le> n
        \<and> (\<forall>c \<in> set (b # p). c \<in> set (blocks F) \<and> \<not> isa_ReturnInst F (terminator F c)))"

lemma paths_end_mono: "paths_end F b n \<Longrightarrow> n \<le> m \<Longrightarrow> paths_end F b m"
  unfolding paths_end_def by (meson le_trans)

lemma paths_end_uniform:
  "\<forall>s \<in> set xs. \<exists>n. paths_end F s n \<Longrightarrow> \<exists>N. \<forall>s \<in> set xs. paths_end F s N"
proof (induction xs)
  case Nil
  show ?case by simp
next
  case (Cons x xs)
  then obtain N where N: "\<forall>s \<in> set xs. paths_end F s N" by auto
  from Cons.prems obtain n where n: "paths_end F x n" by auto
  have "\<forall>s \<in> set (x # xs). paths_end F s (max n N)"
    using N n by (auto intro: paths_end_mono)
  then show ?case by blast
qed

lemma paths_end_step:
  assumes b: "b \<in> set (blocks F)" and r: "\<not> isa_ReturnInst F (terminator F b)"
    and s: "\<forall>s \<in> set (successors F b). paths_end F s N"
  shows "paths_end F b (Suc N)"
  unfolding paths_end_def
proof (intro allI impI)
  fix p assume p: "is_path F (b # p)"
  show "length p \<le> Suc N
        \<and> (\<forall>c \<in> set (b # p). c \<in> set (blocks F) \<and> \<not> isa_ReturnInst F (terminator F c))"
  proof (cases p)
    case Nil
    with b r show ?thesis by simp
  next
    case (Cons c rest)
    with p have c: "c \<in> set (successors F b)" and q: "is_path F (c # rest)" by simp_all
    from s c have "paths_end F c N" by blast
    with q have "length rest \<le> N
        \<and> (\<forall>d \<in> set (c # rest). d \<in> set (blocks F) \<and> \<not> isa_ReturnInst F (terminator F d))"
      unfolding paths_end_def by blast
    with Cons b r show ?thesis by simp
  qed
qed

lemma guaranteed_unreachable_paths_end:
  "b \<in> guaranteed_unreachable F \<Longrightarrow> \<exists>n. paths_end F b n"
proof (induction rule: guaranteed_unreachable.induct)
  case (seed b)
  have "\<forall>s \<in> set (successors F b). paths_end F s 0"
    using unreachable_no_successors[OF seed(2)] by simp
  from paths_end_step[OF seed(1) unreachable_not_return[OF seed(2)] this]
  show ?case by blast
next
  case (close b)
  then have "\<forall>s \<in> set (successors F b). \<exists>n. paths_end F s n" by blast
  from paths_end_uniform[OF this] obtain N where
    "\<forall>s \<in> set (successors F b). paths_end F s N" by blast
  from paths_end_step[OF close(1) close(2) this] show ?case by blast
qed

lemma paths_end_successor:
  assumes "paths_end F b (Suc n)" and "s \<in> set (successors F b)"
  shows "paths_end F s n"
  unfolding paths_end_def
proof (intro allI impI)
  fix p assume "is_path F (s # p)"
  with assms(2) have "is_path F (b # s # p)" by simp
  with assms(1) have "length (s # p) \<le> Suc n
      \<and> (\<forall>c \<in> set (b # s # p). c \<in> set (blocks F) \<and> \<not> isa_ReturnInst F (terminator F c))"
    unfolding paths_end_def by blast
  then show "length p \<le> n
      \<and> (\<forall>c \<in> set (s # p). c \<in> set (blocks F) \<and> \<not> isa_ReturnInst F (terminator F c))"
    by simp
qed

lemma paths_end_here:
  assumes "paths_end F b n"
  shows "b \<in> set (blocks F)" and "\<not> isa_ReturnInst F (terminator F b)"
proof -
  have "is_path F (b # [])" by simp
  with assms have "\<forall>c \<in> set (b # []). c \<in> set (blocks F) \<and> \<not> isa_ReturnInst F (terminator F c)"
    unfolding paths_end_def by blast
  then show "b \<in> set (blocks F)" and "\<not> isa_ReturnInst F (terminator F b)" by simp_all
qed

lemma paths_end_no_successor:
  assumes "paths_end F b 0"
  shows "successors F b = []"
proof (cases "successors F b")
  case Nil
  then show ?thesis .
next
  case (Cons s rest)
  then have "is_path F (b # [s])" by simp
  with assms have "length [s] \<le> 0" unfolding paths_end_def by blast
  then show ?thesis by simp
qed

lemma paths_end_guaranteed_unreachable:
  "paths_end F b n \<Longrightarrow> b \<in> guaranteed_unreachable F"
proof (induction n arbitrary: b)
  case 0
  from paths_end_no_successor[OF 0] have "\<forall>s \<in> set (successors F b). s \<in> guaranteed_unreachable F"
    by simp
  with paths_end_here[OF 0] show ?case by (rule_tac close)
next
  case (Suc n)
  have "\<forall>s \<in> set (successors F b). s \<in> guaranteed_unreachable F"
    using Suc.IH paths_end_successor[OF Suc.prems] by blast
  with paths_end_here[OF Suc.prems] show ?case by (rule_tac close)
qed

lemma end_block_guaranteed_unreachable:
  assumes "b \<in> set (blocks F)" and "successors F b = []"
    and "\<not> isa_ReturnInst F (terminator F b)"
  shows "b \<in> guaranteed_unreachable F"
  using assms by (rule_tac close) simp_all

text \<open>
  C5, with what the code does at a block that has no successor. \<open>getGuaranteedUnreachable\<close>
  returns exactly the fixed point: the least set seeded with the blocks whose terminator is
  \<open>unreachable\<close> and closed under adding a block, not ending in a return, all of whose
  successors are in it. No block ending in a return is in it, and every successor of a
  block of the set is in the set again. In terms of paths, a block is in the set exactly
  when the paths from it are bounded in length (none goes round a loop) and meet no return,
  so that each of them, followed to its end, stops at a block that has no successor and
  does not return. Such a last block need not end in \<open>unreachable\<close>: every block of the
  function without successors that does not return is in the set, all of its successors
  being in the set vacuously.
\<close>

theorem getGuaranteedUnreachable_fixed_point:
  "getGuaranteedUnreachable F = guaranteed_unreachable F
   \<and> (\<forall>b \<in> getGuaranteedUnreachable F. \<not> isa_ReturnInst F (terminator F b))
   \<and> (\<forall>b \<in> getGuaranteedUnreachable F. \<forall>s \<in> set (successors F b). s \<in> getGuaranteedUnreachable F)
   \<and> (\<forall>b. b \<in> getGuaranteedUnreachable F \<longleftrightarrow> (\<exists>n. paths_end F b n))
   \<and> (\<forall>b \<in> set (blocks F). successors F b = [] \<and> \<not> isa_ReturnInst F (terminator F b)
         \<longrightarrow> b \<in> getGuaranteedUnreachable F)"
  unfolding getGuaranteedUnreachable_eq
  using guaranteed_unreachable_not_return guaranteed_unreachable_successors
    guaranteed_unreachable_paths_end paths_end_guaranteed_unreachable
    end_block_guaranteed_unreachable
  by blast

text \<open>
  A function of five blocks: block 0 branches to 1 and 2, block 1 ends in
  \<open>unreachable\<close>, block 2 jumps to 1, block 3 returns, block 4 branches to 1 and 3.
\<close>

definition cfg_example :: ir_function where
  "cfg_example = \<lparr> blocks = [0, 1, 2, 3, 4],
     body = (\<lambda>b. []),
     terminator = (\<lambda>b. 10 + b),
     parent = (\<lambda>v. v - 10),
     kind = (\<lambda>v. if v = 10 then Instruction (Br (Some 100) [1, 2])
                  else if v = 11 then Instruction Unreachable
                  else if v = 12 then Instruction (Br None [1])
                  else if v = 13 then Instruction (Ret None)
                  else if v = 14 then Instruction (Br (Some 100) [1, 3])
                  else OtherValue),
     type_of = (\<lambda>v. VoidTy) \<rparr>"

lemma cfg_example_run: "getGuaranteedUnreachable cfg_example = {0, 1, 2}"
proof -
  have "getGuaranteedUnreachable cfg_example = {0, 2, 1}"
    by (simp add: getGuaranteedUnreachable_def cfg_example_def predecessors_def successors_def
      isa_ReturnInst_def isa_UnreachableInst_def)
  then show ?thesis by auto
qed

theorem getGuaranteedUnreachable_fixed_point_witness:
  "getGuaranteedUnreachable cfg_example = {0, 1, 2}
   \<and> guaranteed_unreachable cfg_example = {0, 1, 2}
   \<and> \<not> isa_ReturnInst cfg_example (terminator cfg_example 2)
   \<and> 1 \<in> set (successors cfg_example 2) \<and> 1 \<in> getGuaranteedUnreachable cfg_example
   \<and> is_path cfg_example [2, 1]
   \<and> \<not> isa_ReturnInst cfg_example (terminator cfg_example 1)
   \<and> is_path cfg_example [4, 3]
   \<and> isa_ReturnInst cfg_example (terminator cfg_example 3)
   \<and> \<not> paths_end cfg_example 4 1"
proof -
  note t = getGuaranteedUnreachable_fixed_point[of cfg_example]
  from t have a: "guaranteed_unreachable cfg_example = getGuaranteedUnreachable cfg_example"
    by simp
  from t have b: "\<not> isa_ReturnInst cfg_example (terminator cfg_example 2)"
    using cfg_example_run by simp
  have c: "1 \<in> set (successors cfg_example 2)"
    by (simp add: cfg_example_def successors_def)
  have p: "is_path cfg_example (2 # [1])" using c by simp
  from t have "2 \<in> getGuaranteedUnreachable cfg_example \<longleftrightarrow> (\<exists>n. paths_end cfg_example 2 n)"
    by blast
  then obtain n where "paths_end cfg_example 2 n" using cfg_example_run by auto
  with p have "\<forall>c \<in> set (2 # [1]). c \<in> set (blocks cfg_example)
       \<and> \<not> isa_ReturnInst cfg_example (terminator cfg_example c)"
    unfolding paths_end_def by blast
  then have d: "\<not> isa_ReturnInst cfg_example (terminator cfg_example 1)" by simp
  have q: "is_path cfg_example [4, 3]" by (simp add: cfg_example_def successors_def)
  have r: "isa_ReturnInst cfg_example (terminator cfg_example 3)"
    by (simp add: cfg_example_def isa_ReturnInst_def)
  from t have "4 \<in> getGuaranteedUnreachable cfg_example \<longleftrightarrow> (\<exists>n. paths_end cfg_example 4 n)"
    by blast
  then have e: "\<not> paths_end cfg_example 4 1" using cfg_example_run by auto
  from a b c d p q r e show ?thesis using cfg_example_run by simp
qed

text \<open>
  Two blocks and no \<open>unreachable\<close>: block 0 jumps to block 1, which ends in a \<open>resume\<close>, a
  terminator without successors.
\<close>

definition resume_example :: ir_function where
  "resume_example = \<lparr> blocks = [0, 1],
     body = (\<lambda>b. []),
     terminator = (\<lambda>b. 10 + b),
     parent = (\<lambda>v. v - 10),
     kind = (\<lambda>v. if v = 10 then Instruction (Br None [1])
                  else if v = 11 then Instruction (OtherTerminator [100] [])
                  else OtherValue),
     type_of = (\<lambda>v. VoidTy) \<rparr>"

lemma resume_example_run: "getGuaranteedUnreachable resume_example = {0, 1}"
proof -
  have "getGuaranteedUnreachable resume_example = {0, Suc 0}"
    by (simp add: getGuaranteedUnreachable_def resume_example_def predecessors_def successors_def
      isa_ReturnInst_def isa_UnreachableInst_def)
  then show ?thesis by simp
qed

theorem guaranteed_unreachable_without_unreachable:
  "getGuaranteedUnreachable resume_example = {0, 1}
   \<and> blocks resume_example = [0, 1]
   \<and> \<not> isa_UnreachableInst resume_example (terminator resume_example 0)
   \<and> \<not> isa_UnreachableInst resume_example (terminator resume_example 1)"
  using resume_example_run by (simp add: resume_example_def isa_UnreachableInst_def)

section \<open>The local \<open>insert_or_assign\<close> helper (EnzymeLogic.cpp, lines 1394-1416)\<close>

text \<open>
  The source reads
  \<^verbatim>\<open>
  auto found = map.find(key);
  if (found == map.end()) {}
    return map.emplace(key, val).first;
  map.at(key) = val;
  return map.find(key);
  \<close>
  The \<open>if\<close> has an empty body, so the \<open>return\<close> after it is unconditional and the two
  statements that follow it are never run. Both overloads (rvalue and const reference)
  have the same body.
\<close>

definition insert_or_assign :: "('k \<rightharpoonup> 'v) \<Rightarrow> 'k \<Rightarrow> 'v \<Rightarrow> ('k \<rightharpoonup> 'v) \<times> ('k \<times> 'v)" where
  "insert_or_assign m key val =
     (let found = m key;
          skip = (if found = None then () else ())
      in (fst (emplace m key val), fst (snd (emplace m key val))))"

text \<open>A run of cache updates that all go through the helper.\<close>

definition insert_or_assign_all :: "('k \<rightharpoonup> 'v) \<Rightarrow> ('k \<times> 'v) list \<Rightarrow> ('k \<rightharpoonup> 'v)" where
  "insert_or_assign_all m kvs = foldl (\<lambda>m' (k, v). fst (insert_or_assign m' k v)) m kvs"

lemma insert_or_assign_all_Nil: "insert_or_assign_all m [] = m"
  by (simp add: insert_or_assign_all_def)

lemma insert_or_assign_all_Cons:
  "insert_or_assign_all m ((k, v) # kvs) = insert_or_assign_all (fst (insert_or_assign m k v)) kvs"
  by (simp add: insert_or_assign_all_def)

lemma insert_or_assign_map:
  "fst (insert_or_assign m k v) = (case m k of None \<Rightarrow> m(k \<mapsto> v) | Some w \<Rightarrow> m)"
  by (simp add: insert_or_assign_def emplace_def split: option.splits)

lemma insert_or_assign_all_lookup:
  "insert_or_assign_all m kvs k = (case m k of Some w \<Rightarrow> Some w | None \<Rightarrow> map_of kvs k)"
proof (induction kvs arbitrary: m)
  case Nil
  show ?case by (simp add: insert_or_assign_all_Nil split: option.splits)
next
  case (Cons kv kvs)
  obtain k' v' where kv: "kv = (k', v')" by (cases kv)
  show ?case
    unfolding kv insert_or_assign_all_Cons Cons.IH insert_or_assign_map
    by (simp split: option.splits)
qed

text \<open>
  C10. \<open>insert_or_assign\<close> never replaces an existing entry: when the key is present the
  map is left as it is and the iterator returned points to the existing entry; when the key
  is absent the value is inserted. Hence, after any run of updates made through the helper,
  a key holds the first value that was stored for it.
\<close>

theorem insert_or_assign_never_replaces:
  "(m k = Some w \<longrightarrow> insert_or_assign m k v = (m, (k, w)))
   \<and> (m k = None \<longrightarrow> insert_or_assign m k v = (m(k \<mapsto> v), (k, v)))
   \<and> (m k = Some w \<longrightarrow> insert_or_assign_all m kvs k = Some w)
   \<and> (m k = None \<longrightarrow> insert_or_assign_all m kvs k = map_of kvs k)"
  by (simp add: insert_or_assign_def emplace_def insert_or_assign_all_lookup)

theorem insert_or_assign_never_replaces_witness:
  "insert_or_assign [1 \<mapsto> 10] (1::nat) (20::nat) = ([1 \<mapsto> 10], (1, 10))
   \<and> insert_or_assign Map.empty (1::nat) (20::nat) = ([1 \<mapsto> 20], (1, 20))
   \<and> insert_or_assign_all [1 \<mapsto> 10] [(1::nat, 20::nat), (2, 30), (2, 40)] 1 = Some 10
   \<and> insert_or_assign_all [1 \<mapsto> (10::nat)] [(1::nat, 20), (2, 30), (2, 40)] 2 = Some 30"
  using insert_or_assign_never_replaces [of "[1 \<mapsto> 10]" "1::nat" "10::nat" 20 "[(1, 20), (2, 30), (2, 40)]"]
        insert_or_assign_never_replaces [of "Map.empty" "1::nat" "10::nat" 20 "[]"]
        insert_or_assign_never_replaces [of "[1 \<mapsto> 10]" "2::nat" "10::nat" 20 "[(1, 20), (2, 30), (2, 40)]"]
  by simp

section \<open>The call-site policy (\<open>shouldAugmentCall\<close>, lines 2055-2093)\<close>

text \<open>The loop over the argument operands; \<open>i\<close> is the index of the head of the list.\<close>

fun shouldAugmentCall_args ::
  "gradient_utils \<Rightarrow> ir_function \<Rightarrow> llvm_function option \<Rightarrow> vname list \<Rightarrow> nat \<Rightarrow> bool \<Rightarrow> bool" where
  "shouldAugmentCall_args g F called [] i modifyPrimal = modifyPrimal"
| "shouldAugmentCall_args g F called (a # as) i modifyPrimal =
     (if isConstantValue g a \<and> (case called of Some f \<Rightarrow> \<not> fn_empty f | None \<Rightarrow> False)
        then shouldAugmentCall_args g F called as (Suc i) modifyPrimal
      else if type_of F a \<noteq> FPTy
              \<and> (case called of Some f \<Rightarrow> \<not> (fn_param_readonly f i \<or> fn_param_readnone f i)
                               | None \<Rightarrow> False)
        then shouldAugmentCall_args g F called as (Suc i) True
      else shouldAugmentCall_args g F called as (Suc i) modifyPrimal)"

definition shouldAugmentCall :: "gradient_utils \<Rightarrow> ir_function \<Rightarrow> vname \<Rightarrow> bool option" where
  "shouldAugmentCall g F op =
     (case kind F op of
        Instruction (CallInst cv args) \<Rightarrow>
          (let called = getCalledFunction cv;
               modifyPrimal = (case called of None \<Rightarrow> True | Some f \<Rightarrow> \<not> fn_readnone f);
               modifyPrimal = (if type_of F op \<noteq> FPTy \<and> \<not> isConstantValue g op
                               then True else modifyPrimal);
               modifyPrimal = (if (case called of None \<Rightarrow> True | Some f \<Rightarrow> fn_empty f)
                               then True else modifyPrimal);
               modifyPrimal = shouldAugmentCall_args g F called args 0 modifyPrimal;
               modifyPrimal = (if isa_UnreachableInst F (terminator F (parent F op))
                               then False else modifyPrimal)
           in Some modifyPrimal)
      | _ \<Rightarrow> None)"

lemma shouldAugmentCall_args_eq:
  "shouldAugmentCall_args g F called as i mp =
     (mp \<or> (\<exists>j < length as.
              \<not> (isConstantValue g (as ! j) \<and> (case called of Some f \<Rightarrow> \<not> fn_empty f | None \<Rightarrow> False))
              \<and> type_of F (as ! j) \<noteq> FPTy
              \<and> (case called of Some f \<Rightarrow> \<not> (fn_param_readonly f (i + j) \<or> fn_param_readnone f (i + j))
                               | None \<Rightarrow> False)))"
proof (induction as arbitrary: i mp)
  case Nil
  then show ?case by simp
next
  case (Cons a as)
  have ex: "(\<exists>j < length (a # as). P j) = (P 0 \<or> (\<exists>j < length as. P (Suc j)))" for P
    by (auto simp: less_Suc_eq_0_disj)
  show ?case
    unfolding shouldAugmentCall_args.simps Cons.IH ex
    by (auto split: option.splits)
qed

text \<open>
  C7. \<open>shouldAugmentCall\<close> answers false when the block of the call ends in
  \<open>unreachable\<close> (the last test of the function, which overrides the others); otherwise it
  answers true exactly when one of the listed conditions holds: the callee is not readnone,
  the result is a non-float non-constant value, the callee is unknown or empty, or a
  non-constant non-float argument is passed at a parameter that the callee marks neither
  readonly nor readnone.
\<close>

theorem shouldAugmentCall_policy:
  assumes "kind F op = Instruction (CallInst cv args)"
  shows "(isa_UnreachableInst F (terminator F (parent F op)) \<longrightarrow> shouldAugmentCall g F op = Some False)
    \<and> (\<not> isa_UnreachableInst F (terminator F (parent F op)) \<longrightarrow>
        shouldAugmentCall g F op = Some (
            (\<exists>f. getCalledFunction cv = Some f \<and> \<not> fn_readnone f)
          \<or> (type_of F op \<noteq> FPTy \<and> \<not> isConstantValue g op)
          \<or> (getCalledFunction cv = None \<or> (\<exists>f. getCalledFunction cv = Some f \<and> fn_empty f))
          \<or> (\<exists>i < length args. \<not> isConstantValue g (args ! i) \<and> type_of F (args ! i) \<noteq> FPTy
                \<and> (\<exists>f. getCalledFunction cv = Some f
                         \<and> \<not> (fn_param_readonly f i \<or> fn_param_readnone f i)))))"
  using assms
  by (cases "getCalledFunction cv")
     (auto simp: shouldAugmentCall_def shouldAugmentCall_args_eq Let_def)


definition call_example :: ir_function where
  "call_example = \<lparr> blocks = [0, 1],
     body = (\<lambda>b. if b = 0 then [5] else if b = 1 then [6] else []),
     terminator = (\<lambda>b. 10 + b),
     parent = (\<lambda>v. if v = 5 then 0 else if v = 6 then 1 else v - 10),
     kind = (\<lambda>v. if v = 1 then Argument
                  else if v = 5 then Instruction (CallInst (DirectCallee callee_example) [1])
                  else if v = 6 then Instruction (CallInst (DirectCallee callee_example) [1])
                  else if v = 10 then Instruction (Ret None)
                  else if v = 11 then Instruction Unreachable
                  else OtherValue),
     type_of = (\<lambda>v. if v = 1 then PtrTy else VoidTy) \<rparr>"

theorem shouldAugmentCall_policy_witness:
  "kind call_example 5 = Instruction (CallInst (DirectCallee callee_example) [1])
   \<and> \<not> isa_UnreachableInst call_example (terminator call_example (parent call_example 5))
   \<and> shouldAugmentCall all_active call_example 5 = Some True
   \<and> kind call_example 6 = Instruction (CallInst (DirectCallee callee_example) [1])
   \<and> isa_UnreachableInst call_example (terminator call_example (parent call_example 6))
   \<and> shouldAugmentCall all_active call_example 6 = Some False"
proof -
  have k5: "kind call_example 5 = Instruction (CallInst (DirectCallee callee_example) [1])"
    and k6: "kind call_example 6 = Instruction (CallInst (DirectCallee callee_example) [1])"
    by (simp_all add: call_example_def)
  have u5: "\<not> isa_UnreachableInst call_example (terminator call_example (parent call_example 5))"
    and u6: "isa_UnreachableInst call_example (terminator call_example (parent call_example 6))"
    by (simp_all add: call_example_def isa_UnreachableInst_def)
  have nr: "\<not> fn_readnone callee_example" by (simp add: callee_example_def)
  from shouldAugmentCall_policy[OF k5, of all_active] u5 nr
  have "shouldAugmentCall all_active call_example 5 = Some True" by simp
  moreover from shouldAugmentCall_policy[OF k6, of all_active] u6
  have "shouldAugmentCall all_active call_example 6 = Some False" by simp
  ultimately show ?thesis using k5 k6 u5 u6 by simp
qed

section \<open>The call-site transformer: allocations and frees\<close>

text \<open>
  What the two call handlers do before they reach the generic call: the instructions they
  erase, the cache slots and shadow allocations they create, and what they write to the
  error stream. The two handlers are followed up to the end of their \<open>free\<close> and \<open>delete\<close>
  branches; \<open>Falls_Through\<close> stands for the rest of the function (constant instructions
  and the generic call), which is not followed here.
\<close>

datatype cache_type = Self | Shadow | Tape

datatype call_effect =
    Erase vname
  | ErasePlaceholder vname
  | LogError string
  | AddMalloc vname cache_type
  | CreateAntiMalloc vname cache_type
  | FreeKnownAllocation vname
  | FreeShadowAllocation vname
  | ReplaceByPhi vname
  | RepeatCall vname

datatype handled = Returns "call_effect list" | Falls_Through

text \<open>\<open>while (auto cast = dyn_cast<CastInst>(val)) val = cast->getOperand(0);\<close>\<close>

partial_function (option) strip_casts :: "ir_function \<Rightarrow> vname \<Rightarrow> vname option" where
  "strip_casts F val =
     (case kind F val of
        Instruction (CastInst c x) \<Rightarrow> strip_casts F x
      | _ \<Rightarrow> Some val)"

subsection \<open>\<open>handleAugmentedCallInst\<close>, lines 2095-2135\<close>

definition augmented_called :: "callee \<Rightarrow> llvm_function option" where
  "augmented_called cv =
     (case cv of
        CastCallee fn \<Rightarrow>
          (if fn_name fn = ''malloc'' \<or> fn_name fn = ''free'' \<or> fn_name fn = ''_Znwm''
              \<or> fn_name fn = ''_ZdlPv'' \<or> fn_name fn = ''_ZdlPvm''
           then Some fn else getCalledFunction cv)
      | _ \<Rightarrow> getCalledFunction cv)"

definition lgamma_names :: "string list" where
  "lgamma_names = [''lgamma'', ''lgammaf'', ''lgammal'', ''lgamma_r'', ''lgammaf_r'',
     ''lgammal_r'', ''__lgamma_r_finite'', ''__lgammaf_r_finite'', ''__lgammal_r_finite'']"

text \<open>\<open>needed\<close> is the answer of \<open>is_value_needed_in_reverse\<close> for the original of the
  call, asked with \<open>topLevel = false\<close>.\<close>

definition handleAugmentedCallInst ::
  "gradient_utils \<Rightarrow> bool \<Rightarrow> vname \<Rightarrow> callee \<Rightarrow> handled" where
  "handleAugmentedCallInst g needed op cv =
     (case augmented_called cv of
        None \<Rightarrow> Falls_Through
      | Some called \<Rightarrow>
          (if fn_name called = ''printf'' \<or> fn_name called = ''puts'' then Returns []
           else if fn_name called \<in> set lgamma_names then Returns []
           else if fn_name called = ''malloc'' \<or> fn_name called = ''_Znwm'' then
             Returns ((if needed then [AddMalloc op Self] else [])
                      @ (if \<not> isConstantValue g op then [CreateAntiMalloc op Shadow] else []))
           else if fn_name called = ''free'' \<or> fn_name called = ''_ZdlPv''
                   \<or> fn_name called = ''_ZdlPvm'' then
             Returns [Erase op]
           else Falls_Through))"

subsection \<open>\<open>handleGradientCallInst\<close>, lines 2330-2476\<close>

text \<open>
  Lines 2427-2454 and 2456-2476, which differ in the allocator they look for and in what
  they log. \<open>dc->getCalledFunction()->getName()\<close> is evaluated for every call the operand
  strips to, and \<open>getCalledFunction\<close> is null for an indirect call.
\<close>

definition release_without_allocation ::
  "ir_function \<Rightarrow> (vname \<rightharpoonup> vname) \<Rightarrow> vname \<Rightarrow> vname list \<Rightarrow> string \<Rightarrow> bool \<Rightarrow> string
   \<Rightarrow> failure + handled" where
  "release_without_allocation F invertedPointers op args allocator checks_null message =
     (let placeholder = (case invertedPointers op of
                           Some ph \<Rightarrow> [ErasePlaceholder ph] | None \<Rightarrow> [])
      in case args of
           [] \<Rightarrow> Inl AssertionFailed
         | arg0 # _ \<Rightarrow>
             (case strip_casts F arg0 of
                None \<Rightarrow> Inl Diverges
              | Some val \<Rightarrow>
                  (case kind F val of
                     Instruction (CallInst dcv dargs) \<Rightarrow>
                       (case getCalledFunction dcv of
                          None \<Rightarrow> Inl NullDereference
                        | Some f \<Rightarrow>
                            (if fn_name f = allocator
                             then Inr (Returns (placeholder @ [Erase op]))
                             else Inr (Returns (placeholder @ [LogError message, Erase op]))))
                   | ConstantPointerNull \<Rightarrow>
                       (if checks_null
                        then Inr (Returns (placeholder
                                    @ [Erase op, LogError ''removing free of null pointer'']))
                        else Inr (Returns (placeholder @ [LogError message, Erase op])))
                   | _ \<Rightarrow> Inr (Returns (placeholder @ [LogError message, Erase op])))))"

definition handleGradientCallInst ::
  "gradient_utils \<Rightarrow> analyses \<Rightarrow> ir_function \<Rightarrow> (vname \<rightharpoonup> vname) \<Rightarrow> bool \<Rightarrow> bool
   \<Rightarrow> vname \<Rightarrow> callee \<Rightarrow> vname list \<Rightarrow> failure + handled" where
  "handleGradientCallInst g A F invertedPointers topLevel needed op cv args =
     (case resolve_called A cv of
        None \<Rightarrow> Inr Falls_Through
      | Some called \<Rightarrow>
          (if fn_name called = ''printf'' \<or> fn_name called = ''puts''
             then Inr (Returns [RepeatCall op])
           else if isAllocationFunction A called then
             Inr (Returns
               ((if \<not> isConstantValue g op
                 then [CreateAntiMalloc op Shadow, FreeShadowAllocation op] else [])
                @ (if \<not> topLevel
                   then (if needed then [AddMalloc op Self] else [ReplaceByPhi op, Erase op])
                   else [])
                @ (if topLevel then [FreeKnownAllocation op] else [])))
           else if fn_name called = ''free'' then
             release_without_allocation F invertedPointers op args ''malloc'' True
               ''freeing without malloc''
           else if fn_name called = ''_ZdlPv'' \<or> fn_name called = ''_ZdlPvm'' then
             release_without_allocation F invertedPointers op args ''_Znwm'' False
               ''deleting without new''
           else Inr Falls_Through))"


subsection \<open>What holds of the frees and deletes\<close>

lemma strip_casts_stop:
  "(\<And>c x. kind F v \<noteq> Instruction (CastInst c x)) \<Longrightarrow> strip_casts F v = Some v"
  by (subst strip_casts.simps) (auto split: vkind.splits inst.splits)

lemma strip_casts_step:
  "kind F v = Instruction (CastInst c x) \<Longrightarrow> strip_casts F v = strip_casts F x"
  by (subst strip_casts.simps) simp

text \<open>The forward (augmented) pass erases every call to \<open>free\<close>, \<open>_ZdlPv\<close> and \<open>_ZdlPvm\<close>,
  directly called or called through a constant cast.\<close>

lemma forward_pass_erases_free:
  assumes "augmented_called cv = Some f"
    and "fn_name f = ''free'' \<or> fn_name f = ''_ZdlPv'' \<or> fn_name f = ''_ZdlPvm''"
  shows "handleAugmentedCallInst g needed op cv = Returns [Erase op]"
  using assms by (auto simp: handleAugmentedCallInst_def lgamma_names_def)

text \<open>In the reverse handler, a \<open>free\<close> of a null pointer is erased and the fact logged.\<close>

lemma free_of_null_is_logged_and_erased:
  assumes "resolve_called A cv = Some f" and "fn_name f = ''free''"
    and "\<not> isAllocationFunction A f"
    and "strip_casts F a = Some val" and "kind F val = ConstantPointerNull"
  shows "handleGradientCallInst g A F ip topLevel needed op cv (a # as) =
           Inr (Returns ((case ip op of Some ph \<Rightarrow> [ErasePlaceholder ph] | None \<Rightarrow> [])
                         @ [Erase op, LogError ''removing free of null pointer'']))"
  using assms by (simp add: handleGradientCallInst_def release_without_allocation_def)

text \<open>A \<open>free\<close> whose operand strips to a value that is not a call, or to a direct call of a
  function other than \<open>malloc\<close>, is logged and erased.\<close>

lemma free_without_malloc_is_logged_and_erased:
  assumes "resolve_called A cv = Some f" and "fn_name f = ''free''"
    and "\<not> isAllocationFunction A f"
    and "strip_casts F a = Some val" and "kind F val \<noteq> ConstantPointerNull"
    and "\<forall>dcv dargs. kind F val = Instruction (CallInst dcv dargs)
           \<longrightarrow> (\<exists>f'. getCalledFunction dcv = Some f' \<and> fn_name f' \<noteq> ''malloc'')"
  shows "handleGradientCallInst g A F ip topLevel needed op cv (a # as) =
           Inr (Returns ((case ip op of Some ph \<Rightarrow> [ErasePlaceholder ph] | None \<Rightarrow> [])
                         @ [LogError ''freeing without malloc'', Erase op]))"
proof (cases "\<exists>dcv dargs. kind F val = Instruction (CallInst dcv dargs)")
  case True
  then obtain dcv dargs where k: "kind F val = Instruction (CallInst dcv dargs)" by blast
  with assms(6) obtain f' where "getCalledFunction dcv = Some f'" "fn_name f' \<noteq> ''malloc''"
    by blast
  with assms k show ?thesis
    by (simp add: handleGradientCallInst_def release_without_allocation_def)
next
  case False
  with assms show ?thesis
    by (auto simp: handleGradientCallInst_def release_without_allocation_def Let_def
             split: vkind.splits inst.splits)
qed

text \<open>
  A block that calls through the function pointer 3 and frees the result: 95 is
  \<open>%p = call i8* %3()\<close>, 96 is \<open>call void @free(i8* %p)\<close>.
\<close>

definition free_function :: llvm_function where
  "free_function = \<lparr> fn_name = ''free'', fn_empty = True, fn_readnone = False,
     fn_param_readonly = (\<lambda>i. False), fn_param_readnone = (\<lambda>i. False), fn_intrinsic = False \<rparr>"

definition free_example :: ir_function where
  "free_example = \<lparr> blocks = [0],
     body = (\<lambda>b. if b = 0 then [95, 96] else []),
     terminator = (\<lambda>b. 99),
     parent = (\<lambda>v. 0),
     kind = (\<lambda>v. if v = 3 then Argument
                  else if v = 95 then Instruction (CallInst (IndirectCallee 3) [])
                  else if v = 96 then Instruction (CallInst (DirectCallee free_function) [95])
                  else if v = 99 then Instruction (Ret None)
                  else OtherValue),
     type_of = (\<lambda>v. if v = 3 \<or> v = 95 then PtrTy else VoidTy) \<rparr>"

text \<open>
  C9 holds of the forward pass and of the frees covered by the three lemmas above, and
  fails on this input: the operand of the \<open>free\<close> does not trace back to a \<open>malloc\<close>, so the
  claim has the call logged and erased and the transformation going on, but line 2438 asks
  the name of the called function of the indirect call 95, which is null.
\<close>

theorem free_of_indirect_call_result_stops:
  "handleAugmentedCallInst all_active False 96 (DirectCallee free_function) = Returns [Erase 96]
   \<and> handleGradientCallInst all_active analyses_example free_example Map.empty True False 96
        (DirectCallee free_function) [95] = Inl NullDereference"
proof -
  have s: "strip_casts free_example 95 = Some 95"
    by (rule strip_casts_stop) (simp add: free_example_def)
  have "handleGradientCallInst all_active analyses_example free_example Map.empty True False 96
        (DirectCallee free_function) [95] = Inl NullDereference"
    by (simp add: handleGradientCallInst_def release_without_allocation_def resolve_called_def
          free_function_def analyses_example_def s)
       (simp add: free_example_def)
  moreover have "handleAugmentedCallInst all_active False 96 (DirectCallee free_function)
       = Returns [Erase 96]"
    by (rule forward_pass_erases_free[where f = free_function])
       (simp_all add: augmented_called_def free_function_def)
  ultimately show ?thesis by simp
qed

section \<open>The augmented-primal builder and its cache (\<open>CreateAugmentedPrimal\<close>, lines 1420-1862)\<close>

text \<open>
  A function object is either one of the module as the transform finds it, or one the
  transform created (\<open>Function::Create\<close>, or the clone \<open>GradientUtils::CreateFromClone\<close>
  makes); the created ones are numbered in the order of creation.
\<close>

datatype fn = Existing nat | Created nat

text \<open>
  The signature key, compared by value. A \<open>std::set\<close> is its ascending list of elements, a
  \<open>std::map\<close> its list of entries in ascending key order; the type information is kept
  abstract.
\<close>

record signature_key =
  todiff :: nat
  constant_args :: "nat list"
  uncacheable_args :: "(nat \<times> bool) list"
  differentialReturn :: bool
  returnUsed :: bool
  typeInfo :: nat

text \<open>
  Of an \<open>AugmentedReturn\<close>: the function, the tape type (null until a recursive function is
  finished) and the augmentations of the calls inside, each a pointer to an entry of the
  cache and so a key. The index maps and the two cacheability maps play no part here.
\<close>

record augmented_return =
  fn :: fn
  tapeType :: "nat option"
  subaugmentations :: "vname \<rightharpoonup> signature_key"

text \<open>
  The two static maps, the functions created so far, and the calls that
  \<open>handleAugmentedCallInst\<close> has emitted to augmented functions (call site and callee): the
  users of a function are the calls to it. \<open>constructions\<close> is not a variable of the
  program: it records every key for which a call went past the cache lookup.
\<close>

record builder_state =
  cachedfunctions :: "signature_key \<rightharpoonup> augmented_return"
  cachedfinished :: "signature_key \<rightharpoonup> bool"
  functions_created :: nat
  augmented_calls :: "(vname \<times> fn) list"
  constructions :: "signature_key list"

definition initial_state :: builder_state where
  "initial_state = \<lparr> cachedfunctions = Map.empty, cachedfinished = Map.empty,
     functions_created = 0, augmented_calls = [], constructions = [] \<rparr>"

text \<open>
  What the builder reads of the program and of the parts of the transform that are not in
  this file. \<open>enzyme_augment\<close> is the metadata of a function: absent, not a tuple, or the
  function to use with whether its return type is that of the function differentiated.
  \<open>preparation\<close> stands for lines 1494-1541 (the clone, the type and activity analyses, the
  two cacheability maps) and \<open>verification\<close> for the two calls of \<open>verifyFunction\<close>; either
  may stop the run. \<open>forward_events\<close> lists, in the order the forward pass meets them, the
  calls for which \<open>handleAugmentedCallInst\<close> asks for the augmented primal of the callee
  (line 2225), with the key it asks for, and the instructions at which a handler stops.
\<close>

datatype augment_metadata = NotATuple | AugmentedBy nat bool

datatype forward_event = AugmentCall vname signature_key | Stops failure

record program =
  returns_value :: "nat \<Rightarrow> bool"
  enzyme_augment :: "nat \<Rightarrow> augment_metadata option"
  is_declaration :: "nat \<Rightarrow> bool"
  preparation :: "signature_key \<Rightarrow> failure option"
  forward_events :: "signature_key \<Rightarrow> forward_event list"
  verification :: "signature_key \<Rightarrow> failure option"
  tape_type_of :: "signature_key \<Rightarrow> nat"

text \<open>Lines 1435-1483: a function that carries \<open>enzyme_augment\<close> metadata.\<close>

definition use_metadata ::
  "signature_key \<Rightarrow> nat \<Rightarrow> bool \<Rightarrow> builder_state \<Rightarrow> augmented_return \<times> builder_state" where
  "use_metadata tup foundcalled same_return_type s =
     (if same_return_type then
        (let NewF = Created (functions_created s);
             inserted = insert_or_assign (cachedfunctions s) tup
                          \<lparr> fn = NewF, tapeType = None, subaugmentations = Map.empty \<rparr>
         in (snd (snd inserted),
             s\<lparr> cachedfunctions := fst inserted,
                functions_created := Suc (functions_created s) \<rparr>))
      else
        (let inserted = insert_or_assign (cachedfunctions s) tup
                          \<lparr> fn = Existing foundcalled, tapeType = None,
                            subaugmentations = Map.empty \<rparr>
         in (snd (snd inserted), s\<lparr> cachedfunctions := fst inserted \<rparr>)))"

text \<open>Lines 1494 and 1548-1549: the clone is created and the entry reserved with it.\<close>

definition reserve :: "signature_key \<Rightarrow> builder_state \<Rightarrow> builder_state" where
  "reserve tup s =
     s\<lparr> cachedfunctions :=
          fst (insert_or_assign (cachedfunctions s) tup
                 \<lparr> fn = Created (functions_created s), tapeType = None,
                   subaugmentations = Map.empty \<rparr>),
        cachedfinished := (cachedfinished s)(tup \<mapsto> False),
        functions_created := Suc (functions_created s) \<rparr>"

text \<open>
  Lines 2225-2258, in the frame that builds \<open>tup\<close>: the augmentation returned is recorded
  for the call site in the entry of \<open>tup\<close> and the call is emitted to its function.
\<close>

definition record_call ::
  "signature_key \<Rightarrow> vname \<Rightarrow> signature_key \<Rightarrow> augmented_return \<Rightarrow> builder_state
   \<Rightarrow> failure + builder_state" where
  "record_call tup site subkey augmentation s =
     (case cachedfunctions s tup of
        None \<Rightarrow> Inl NullDereference
      | Some own \<Rightarrow>
          Inr (s\<lparr> cachedfunctions := (cachedfunctions s)(tup \<mapsto>
                      own\<lparr> subaugmentations :=
                             fst (insert_or_assign (subaugmentations own) site subkey) \<rparr>),
                   augmented_calls := augmented_calls s @ [(site, fn augmentation)] \<rparr>))"

text \<open>
  Lines 1686-1861: whether the reserved function has users, the final function, the calls
  to the reserved function redirected to it, the entry updated in place, and the reserved
  function erased. \<open>cachedfinished\<close> is updated through \<open>insert_or_assign\<close>.
\<close>

definition complete ::
  "program \<Rightarrow> bool \<Rightarrow> signature_key \<Rightarrow> builder_state \<Rightarrow> failure + augmented_return \<times> builder_state" where
  "complete P forceAnonymousTape tup s =
     (case cachedfunctions s tup of
        None \<Rightarrow> Inl NullDereference
      | Some reserved \<Rightarrow>
          (let recursive = (list_ex (\<lambda>(site, callee). callee = fn reserved) (augmented_calls s)
                            \<or> forceAnonymousTape);
               NewF = Created (functions_created s);
               final = reserved\<lparr> fn := NewF,
                         tapeType := (if recursive then Some (tape_type_of P tup)
                                      else tapeType reserved) \<rparr>
           in Inr (final,
                   s\<lparr> cachedfunctions := (cachedfunctions s)(tup \<mapsto> final),
                      cachedfinished := fst (insert_or_assign (cachedfinished s) tup True),
                      functions_created := Suc (functions_created s),
                      augmented_calls :=
                        map (\<lambda>(site, callee).
                               if callee = fn reserved then (site, NewF) else (site, callee))
                            (augmented_calls s) \<rparr>)))"

text \<open>
  The builder and the forward pass over the events of the function it builds. The first
  argument after the program bounds the depth of the recursion through callees: the keys
  asked for are not bounded by the program text alone.
\<close>

fun CreateAugmentedPrimal ::
  "program \<Rightarrow> nat \<Rightarrow> bool \<Rightarrow> signature_key \<Rightarrow> builder_state
   \<Rightarrow> failure + augmented_return \<times> builder_state"
and forward_pass ::
  "program \<Rightarrow> nat \<Rightarrow> signature_key \<Rightarrow> forward_event list \<Rightarrow> builder_state
   \<Rightarrow> failure + builder_state" where
  "CreateAugmentedPrimal P 0 forceAnonymousTape tup s = Inl Diverges"
| "CreateAugmentedPrimal P (Suc depth) forceAnonymousTape tup s =
     (if (returnUsed tup \<or> differentialReturn tup) \<and> \<not> returns_value P (todiff tup)
        then Inl AssertionFailed
      else
        (case cachedfunctions s tup of
           Some found \<Rightarrow> Inr (found, s)
         | None \<Rightarrow>
             (let s0 = s\<lparr> constructions := constructions s @ [tup] \<rparr>
              in if constant_args tup = [] \<and> enzyme_augment P (todiff tup) \<noteq> None then
                   (case enzyme_augment P (todiff tup) of
                      Some (AugmentedBy foundcalled same_return_type) \<Rightarrow>
                        Inr (use_metadata tup foundcalled same_return_type s0)
                    | _ \<Rightarrow> Inl (FatalError
                        ''unknown augment for noninvertible function -- metadata incorrect''))
                 else if is_declaration P (todiff tup) then Inl AssertionFailed
                 else
                   (case preparation P tup of
                      Some stop \<Rightarrow> Inl stop
                    | None \<Rightarrow>
                        (case forward_pass P depth tup (forward_events P tup) (reserve tup s0) of
                           Inl stop \<Rightarrow> Inl stop
                         | Inr s2 \<Rightarrow>
                             (case verification P tup of
                                Some stop \<Rightarrow> Inl stop
                              | None \<Rightarrow> complete P forceAnonymousTape tup s2))))))"
| "forward_pass P depth tup [] s = Inr s"
| "forward_pass P depth tup (Stops stop # events) s = Inl stop"
| "forward_pass P depth tup (AugmentCall site subkey # events) s =
     (case CreateAugmentedPrimal P depth False subkey s of
        Inl stop \<Rightarrow> Inl stop
      | Inr (augmentation, s1) \<Rightarrow>
          (case record_call tup site subkey augmentation s1 of
             Inl stop \<Rightarrow> Inl stop
           | Inr s2 \<Rightarrow> forward_pass P depth tup events s2))"



subsection \<open>The invariant of the cache\<close>













subsection \<open>What a call that returns leaves behind\<close>





subsection \<open>Memoization\<close>







subsection \<open>Functions taken from metadata\<close>








subsection \<open>Requests made while a key is built\<close>







subsection \<open>What a returning call guarantees\<close>






subsection \<open>Two runs\<close>

text \<open>A key of function 0, with no constant argument.\<close>

definition key_example :: signature_key where
  "key_example = \<lparr> todiff = 0, constant_args = [], uncacheable_args = [],
     differentialReturn = True, returnUsed = True, typeInfo = 0 \<rparr>"

text \<open>
  Two functions that call each other: the forward pass of function 0 asks, at call site 5,
  for the augmented primal of function 1, whose forward pass asks, at call site 6, for that
  of function 0 with the key being built.
\<close>

definition callee_key_example :: signature_key where
  "callee_key_example = key_example\<lparr> todiff := 1 \<rparr>"

definition mutual_example :: program where
  "mutual_example = \<lparr> returns_value = (\<lambda>f. True), enzyme_augment = (\<lambda>f. None),
     is_declaration = (\<lambda>f. False), preparation = (\<lambda>k. None),
     forward_events = (\<lambda>k. if todiff k = 0 then [AugmentCall 5 (k\<lparr> todiff := 1 \<rparr>)]
                             else [AugmentCall 6 (k\<lparr> todiff := 0 \<rparr>)]),
     verification = (\<lambda>k. None),
     tape_type_of = (\<lambda>k. 9) \<rparr>"


definition mutual_result_example :: "augmented_return \<times> builder_state" where
  "mutual_result_example =
     projr (CreateAugmentedPrimal mutual_example (Suc (Suc (Suc 0))) False key_example
              initial_state)"

lemma keys_example_differ: "key_example \<noteq> callee_key_example"
  by (simp add: key_example_def callee_key_example_def)





text \<open>
  \<open>cachedfinished\<close> still holds \<open>false\<close> for the finished key: line 1853 goes through
  \<open>insert_or_assign\<close>, which leaves the entry of line 1549 as it is.
\<close>

lemma mutual_example_finished:
  "cachedfinished (snd mutual_result_example) key_example = Some False"
  by (simp add: mutual_result_example_def mutual_example_def initial_state_def reserve_def
      record_call_def complete_def insert_or_assign_def emplace_def Let_def
      key_example_def callee_key_example_def)







end
